theory Spec2Isabelle
  imports Complex_Main "HOL-Library.Stream"
begin

section \<open>Python values, failures and the random source\<close>

text \<open>
  The simulation is Python. Its numbers are Python integers and floats: counters that are
  integers in every run are \<^verbatim>\<open>int\<close>, everything that may be scaled by a testing
  probability is \<^verbatim>\<open>real\<close> (floats are idealised as reals: comparisons are exact, the
  rounding of sums is not modelled). An exception is a value of type \<^verbatim>\<open>error\<close>.
\<close>

datatype error = IndexError | KeyError | ValueError

definition bindE :: "error + 'a \<Rightarrow> ('a \<Rightarrow> error + 'b) \<Rightarrow> error + 'b" where
  "bindE m f = (case m of Inl e \<Rightarrow> Inl e | Inr x \<Rightarrow> f x)"

text \<open>A straight-line block of statements, each of which may raise.\<close>

fun seqE :: "('s \<Rightarrow> error + 's) list \<Rightarrow> 's \<Rightarrow> error + 's" where
  "seqE [] s = Inr s"
| "seqE (f # fs) s = bindE (f s) (seqE fs)"

text \<open>\<^verbatim>\<open>for x in xs: body\<close> over a sequence that the body cannot change.\<close>

fun for_each :: "('a \<Rightarrow> 's \<Rightarrow> error + 's) \<Rightarrow> 'a list \<Rightarrow> 's \<Rightarrow> error + 's" where
  "for_each body [] s = Inr s"
| "for_each body (x # xs) s = bindE (body x s) (for_each body xs)"

text \<open>\<^verbatim>\<open>xs[i]\<close>: a negative index counts from the end, anything else out of range raises.\<close>

definition py_index :: "'a list \<Rightarrow> int \<Rightarrow> error + 'a" where
  "py_index xs i =
     (if 0 \<le> i \<and> i < int (length xs) then Inr (xs ! nat i)
      else if i < 0 \<and> - int (length xs) \<le> i then Inr (xs ! nat (int (length xs) + i))
      else Inl IndexError)"

text \<open>
  The module \<^verbatim>\<open>random\<close> is not part of the repository. Its generator is a tape of raw
  draws, one consumed by each call. \<^verbatim>\<open>random.random()\<close> is a multiple of
  \<^verbatim>\<open>2^-53\<close> in \<^verbatim>\<open>[0, 1)\<close>, as in CPython; \<^verbatim>\<open>random.randint(a, b)\<close> lies in
  \<^verbatim>\<open>[a, b]\<close> and raises when the range is empty. Every sequence of results that the
  two calls can produce is produced by some tape, so a statement about all tapes is a
  statement about all runs.
\<close>

type_synonym rng = "nat stream"

definition random_random :: "rng \<Rightarrow> real \<times> rng" where
  "random_random g = (real (shd g mod 2 ^ 53) / 2 ^ 53, stl g)"

definition random_randint :: "int \<Rightarrow> int \<Rightarrow> rng \<Rightarrow> error + int \<times> rng" where
  "random_randint a b g =
     (if b < a then Inl ValueError else Inr (a + int (shd g) mod (b - a + 1), stl g))"

section \<open>simulate\_v2: the simulation state\<close>

text \<open>
  The state is a dictionary keyed by the strings below. The keys of the daily counters, of
  the days of the maxima and of the series are enumerations named as the constants of the
  source; \<^verbatim>\<open>series_label\<close> gives the string each series constant is bound to, which is
  the key under which the series is stored and written.
\<close>

datatype daily_key =
    DAILY_CASES | DAILY_CONFIRMED_CASES | DAILY_RECOVERIES | DAILY_CONFIRMED_RECOVERIES
  | DAILY_DEATHS | DAILY_CONFIRMED_DEATHS | DAILY_HOSPITALIZATIONS | DAILY_ICU

datatype max_key =
    MAX_NEW_DAILY_CASES | MAX_NEW_DAILY_CONFIRMED_CASES | MAX_ACTIVE_CASES
  | MAX_ACTIVE_CONFIRMED_CASES | MAX_ACTIVE_HOSPITALIZATIONS | MAX_ACTIVE_ICU

datatype series_key =
    CUMULATIVE_CASES_SERIES | CUMULATIVE_CONFIRMED_CASES_SERIES
  | CUMULATIVE_RECOVERIES_SERIES | CUMULATIVE_CONFIRMED_RECOVERIES_SERIES
  | CUMULATIVE_DEATHS_SERIES | CUMULATIVE_CONFIRMED_DEATHS_SERIES
  | ACTIVE_CASES_SERIES | ACTIVE_CONFIRMED_CASES_SERIES
  | ACTIVE_HOSPITALIZED_CASES_SERIES | ACTIVE_ICU_CASES_SERIES
  | NEW_CASES_SERIES | NEW_CONFIRMED_CASES_SERIES
  | NEW_ACTIVE_CASES_SERIES | NEW_CONFIRMED_ACTIVE_CASES_SERIES
  | NEW_RECOVERIES_SERIES | NEW_DEATHS_SERIES

fun series_label :: "series_key \<Rightarrow> string" where
  "series_label CUMULATIVE_CASES_SERIES = ''cumulative cases''"
| "series_label CUMULATIVE_CONFIRMED_CASES_SERIES = ''cumulative confirmed cases''"
| "series_label CUMULATIVE_RECOVERIES_SERIES = ''cumulative recoveries''"
| "series_label CUMULATIVE_CONFIRMED_RECOVERIES_SERIES = ''cumulative confirmed recoveries''"
| "series_label CUMULATIVE_DEATHS_SERIES = ''cumulative confirmed deaths''"
| "series_label CUMULATIVE_CONFIRMED_DEATHS_SERIES = ''cumulative deaths''"
| "series_label ACTIVE_CASES_SERIES = ''active cases''"
| "series_label ACTIVE_CONFIRMED_CASES_SERIES = ''active confirmed cases''"
| "series_label ACTIVE_HOSPITALIZED_CASES_SERIES = ''active hospitalized cases''"
| "series_label ACTIVE_ICU_CASES_SERIES = ''active ICU cases''"
| "series_label NEW_CASES_SERIES = ''new cases''"
| "series_label NEW_CONFIRMED_CASES_SERIES = ''new confirmed cases''"
| "series_label NEW_ACTIVE_CASES_SERIES = ''new active cases''"
| "series_label NEW_CONFIRMED_ACTIVE_CASES_SERIES = ''new confirmed active cases''"
| "series_label NEW_RECOVERIES_SERIES = ''new recoveries''"
| "series_label NEW_DEATHS_SERIES = ''new deaths''"

fun max_label :: "max_key \<Rightarrow> string" where
  "max_label MAX_NEW_DAILY_CASES = ''max_new_daily_cases_day''"
| "max_label MAX_NEW_DAILY_CONFIRMED_CASES = ''max_new_daily_confirmed_cases_day''"
| "max_label MAX_ACTIVE_CASES = ''max_active_cases_day''"
| "max_label MAX_ACTIVE_CONFIRMED_CASES = ''max_active_confirmed_cases_day''"
| "max_label MAX_ACTIVE_HOSPITALIZATIONS = ''max_active_hospitalizations_day''"
| "max_label MAX_ACTIVE_ICU = ''max_active_ICU_day''"

text \<open>A value stored in a person's dictionary, and the dictionary itself.\<close>

datatype pyval = PInt int | PReal real | PStr string | PBool bool

type_synonym pdict = "string \<rightharpoonup> pyval"

text \<open>
  A phase is a dictionary of which the engine reads four entries; each may be missing.
\<close>

record phase =
  start_day :: "int option"
  daily_contacts :: "real option"
  transmission_probability :: "real option"
  Ro :: "real option"

text \<open>
  The state. Keys that only the collaborators read (health states, events, the current
  contact and transmission parameters) and whatever state the collaborators keep of their
  own live in the extension of the record.
\<close>

record sim_state =
  simulation_days :: int
  population :: int
  initial_infection :: int
  people :: "pdict list"
  hospitalized_people :: "pdict list"
  phases :: "(string \<times> phase) list"
  current_phase :: "phase option"
  current_testing_probability :: "real option"
  daily_population :: int
  daily :: "daily_key \<Rightarrow> real"
  max_day :: "max_key \<Rightarrow> int"
  series :: "series_key \<Rightarrow> real list"
  rng :: rng

definition create_initial_state ::
  "(string \<times> phase) list \<Rightarrow> int \<Rightarrow> int \<Rightarrow> int \<Rightarrow> rng \<Rightarrow> 'z \<Rightarrow> 'z sim_state_scheme" where
  "create_initial_state phs sim_days pop infection g z =
     \<lparr> simulation_days = sim_days, population = pop, initial_infection = infection,
       people = [], hospitalized_people = [], phases = phs,
       current_phase = None, current_testing_probability = None,
       daily_population = 0, daily = (\<lambda>k. 0), max_day = (\<lambda>m. 0), series = (\<lambda>k. []),
       rng = g, \<dots> = z \<rparr>"

section \<open>simulate\_v2: appending a day to the series\<close>

definition append_series :: "series_key \<Rightarrow> real \<Rightarrow> 'z sim_state_scheme \<Rightarrow> 'z sim_state_scheme" where
  "append_series k v ss = ss\<lparr>series := (series ss)(k := series ss k @ [v])\<rparr>"

definition series_at :: "'z sim_state_scheme \<Rightarrow> series_key \<Rightarrow> int \<Rightarrow> error + real" where
  "series_at ss k i = py_index (series ss k) i"

text \<open>\<^verbatim>\<open>ss[k].append(f(ss))\<close>: a daily value.\<close>

definition append_daily ::
  "series_key \<Rightarrow> ((daily_key \<Rightarrow> real) \<Rightarrow> real) \<Rightarrow> 'z sim_state_scheme \<Rightarrow> error + 'z sim_state_scheme" where
  "append_daily k f ss = Inr (append_series k (f (daily ss)) ss)"

text \<open>\<^verbatim>\<open>ss[k].append(f(ss[k][day], ss))\<close>: a value built on the entry of \<^verbatim>\<open>day\<close>.\<close>

definition append_next ::
  "series_key \<Rightarrow> int \<Rightarrow> (real \<Rightarrow> (daily_key \<Rightarrow> real) \<Rightarrow> real) \<Rightarrow>
   'z sim_state_scheme \<Rightarrow> error + 'z sim_state_scheme" where
  "append_next k day f ss =
     bindE (series_at ss k day) (\<lambda>prev. Inr (append_series k (f prev (daily ss)) ss))"

text \<open>\<^verbatim>\<open>if ss[k][day + 1] > ss[k][ss[m]]: ss[m] = day + 1\<close>\<close>

definition update_max ::
  "max_key \<Rightarrow> series_key \<Rightarrow> int \<Rightarrow> 'z sim_state_scheme \<Rightarrow> error + 'z sim_state_scheme" where
  "update_max m k day ss =
     bindE (series_at ss k (day + 1)) (\<lambda>today.
     bindE (series_at ss k (max_day ss m)) (\<lambda>best.
       Inr (if today > best then ss\<lparr>max_day := (max_day ss)(m := day + 1)\<rparr> else ss)))"

text \<open>The block of \<^verbatim>\<open>run_simulation\<close> that appends the statistics of an ordinary day.\<close>

definition append_statistics :: "int \<Rightarrow> 'z sim_state_scheme \<Rightarrow> error + 'z sim_state_scheme" where
  "append_statistics day = seqE
     [ append_next CUMULATIVE_CASES_SERIES day (\<lambda>prev d. prev + d DAILY_CASES),
       append_next CUMULATIVE_CONFIRMED_CASES_SERIES day (\<lambda>prev d. prev + d DAILY_CONFIRMED_CASES),
       append_next ACTIVE_CASES_SERIES day
         (\<lambda>prev d. prev + d DAILY_CASES - d DAILY_RECOVERIES - d DAILY_DEATHS),
       update_max MAX_ACTIVE_CASES ACTIVE_CASES_SERIES day,
       append_next ACTIVE_CONFIRMED_CASES_SERIES day
         (\<lambda>prev d. prev + d DAILY_CONFIRMED_CASES - d DAILY_CONFIRMED_RECOVERIES
                       - d DAILY_CONFIRMED_DEATHS),
       update_max MAX_ACTIVE_CONFIRMED_CASES ACTIVE_CONFIRMED_CASES_SERIES day,
       append_next ACTIVE_HOSPITALIZED_CASES_SERIES day (\<lambda>prev d. prev + d DAILY_HOSPITALIZATIONS),
       update_max MAX_ACTIVE_HOSPITALIZATIONS ACTIVE_HOSPITALIZED_CASES_SERIES day,
       append_next ACTIVE_ICU_CASES_SERIES day (\<lambda>prev d. prev + d DAILY_ICU),
       update_max MAX_ACTIVE_ICU ACTIVE_ICU_CASES_SERIES day,
       append_next CUMULATIVE_RECOVERIES_SERIES day (\<lambda>prev d. prev + d DAILY_RECOVERIES),
       append_next CUMULATIVE_CONFIRMED_RECOVERIES_SERIES day
         (\<lambda>prev d. prev + d DAILY_CONFIRMED_RECOVERIES),
       append_next CUMULATIVE_DEATHS_SERIES day (\<lambda>prev d. prev + d DAILY_DEATHS),
       append_next CUMULATIVE_CONFIRMED_DEATHS_SERIES day
         (\<lambda>prev d. prev + d DAILY_CONFIRMED_DEATHS),
       append_daily NEW_CASES_SERIES (\<lambda>d. d DAILY_CASES),
       update_max MAX_NEW_DAILY_CASES NEW_CASES_SERIES day,
       append_daily NEW_CONFIRMED_CASES_SERIES (\<lambda>d. d DAILY_CONFIRMED_CASES),
       update_max MAX_NEW_DAILY_CONFIRMED_CASES NEW_CONFIRMED_CASES_SERIES day,
       append_daily NEW_ACTIVE_CASES_SERIES
         (\<lambda>d. d DAILY_CASES - d DAILY_RECOVERIES - d DAILY_DEATHS),
       append_daily NEW_CONFIRMED_ACTIVE_CASES_SERIES
         (\<lambda>d. d DAILY_CONFIRMED_CASES - d DAILY_CONFIRMED_RECOVERIES - d DAILY_DEATHS),
       append_daily NEW_RECOVERIES_SERIES (\<lambda>d. d DAILY_RECOVERIES),
       append_daily NEW_DEATHS_SERIES (\<lambda>d. d DAILY_DEATHS) ]"

text \<open>The block that appends the seeded initial condition (the branch \<^verbatim>\<open>day == -1\<close>).\<close>

definition append_initial_statistics :: "'z sim_state_scheme \<Rightarrow> error + 'z sim_state_scheme" where
  "append_initial_statistics = seqE
     [ append_daily CUMULATIVE_CASES_SERIES (\<lambda>d. d DAILY_CASES),
       append_daily CUMULATIVE_CONFIRMED_CASES_SERIES (\<lambda>d. d DAILY_CONFIRMED_CASES),
       append_daily ACTIVE_CASES_SERIES
         (\<lambda>d. d DAILY_CASES - d DAILY_RECOVERIES - d DAILY_DEATHS),
       append_daily ACTIVE_CONFIRMED_CASES_SERIES
         (\<lambda>d. d DAILY_CONFIRMED_CASES - d DAILY_CONFIRMED_RECOVERIES - d DAILY_CONFIRMED_DEATHS),
       append_daily ACTIVE_HOSPITALIZED_CASES_SERIES (\<lambda>d. d DAILY_HOSPITALIZATIONS),
       append_daily ACTIVE_ICU_CASES_SERIES (\<lambda>d. d DAILY_ICU),
       append_daily CUMULATIVE_RECOVERIES_SERIES (\<lambda>d. d DAILY_RECOVERIES),
       append_daily CUMULATIVE_CONFIRMED_RECOVERIES_SERIES (\<lambda>d. d DAILY_CONFIRMED_RECOVERIES),
       append_daily CUMULATIVE_DEATHS_SERIES (\<lambda>d. d DAILY_DEATHS),
       append_daily CUMULATIVE_CONFIRMED_DEATHS_SERIES (\<lambda>d. d DAILY_CONFIRMED_DEATHS),
       append_daily NEW_CASES_SERIES (\<lambda>d. d DAILY_CASES),
       append_daily NEW_CONFIRMED_CASES_SERIES (\<lambda>d. d DAILY_CONFIRMED_CASES),
       append_daily NEW_ACTIVE_CASES_SERIES
         (\<lambda>d. d DAILY_CASES - d DAILY_RECOVERIES - d DAILY_DEATHS),
       append_daily NEW_CONFIRMED_ACTIVE_CASES_SERIES
         (\<lambda>d. d DAILY_CONFIRMED_CASES - d DAILY_CONFIRMED_RECOVERIES - d DAILY_DEATHS),
       append_daily NEW_RECOVERIES_SERIES (\<lambda>d. d DAILY_RECOVERIES),
       append_daily NEW_DEATHS_SERIES (\<lambda>d. d DAILY_DEATHS) ]"

section \<open>simulate\_v2: the collaborators and the run\<close>

text \<open>
  The state holds callables supplied by the caller. They are parameters of the run: each
  receives the state (and the random source in it), may change any of it, and may raise.
  A person handed to a callable is a reference to an element of one of the two lists. The
  callable that sets the default health receives a new person and a flag, not the state;
  it may draw random numbers.
\<close>

datatype person_ref = People_ref nat | Hospitalized_ref nat

record 'z callbacks =
  set_default_health :: "pdict \<Rightarrow> bool \<Rightarrow> rng \<Rightarrow> error + pdict \<times> rng"
  set_infected :: "person_ref \<Rightarrow> 'z sim_state_scheme \<Rightarrow> error + 'z sim_state_scheme"
  daily_health_evaluation :: "person_ref \<Rightarrow> 'z sim_state_scheme \<Rightarrow> error + 'z sim_state_scheme"
  daily_evaluate_contacts :: "person_ref \<Rightarrow> 'z sim_state_scheme \<Rightarrow> error + 'z sim_state_scheme"
  daily_update_state :: "int \<Rightarrow> 'z sim_state_scheme \<Rightarrow> error + 'z sim_state_scheme"
  update_testing_rates :: "real \<Rightarrow> 'z sim_state_scheme \<Rightarrow> error + 'z sim_state_scheme"
  daily_phase_evaluation :: "int \<Rightarrow> 'z sim_state_scheme \<Rightarrow> error + bool \<times> 'z sim_state_scheme"
  daily_event_evaluation :: "(int \<Rightarrow> 'z sim_state_scheme \<Rightarrow> error + 'z sim_state_scheme) option"

text \<open>A computation that may raise and may also not return (\<^verbatim>\<open>None\<close>).\<close>

definition bindR ::
  "(error + 'a) option \<Rightarrow> ('a \<Rightarrow> (error + 'b) option) \<Rightarrow> (error + 'b) option" where
  "bindR m f = (case m of None \<Rightarrow> None | Some (Inl e) \<Rightarrow> Some (Inl e) | Some (Inr x) \<Rightarrow> f x)"

definition reset_daily :: "'z sim_state_scheme \<Rightarrow> 'z sim_state_scheme" where
  "reset_daily ss = ss\<lparr>daily := (daily ss)
     (DAILY_CASES := 0, DAILY_CONFIRMED_CASES := 0, DAILY_RECOVERIES := 0,
      DAILY_CONFIRMED_RECOVERIES := 0, DAILY_DEATHS := 0, DAILY_CONFIRMED_DEATHS := 0,
      DAILY_HOSPITALIZATIONS := 0, DAILY_ICU := 0)\<rparr>"

text \<open>One round of the loop that creates the population.\<close>

definition create_person ::
  "'z callbacks \<Rightarrow> int \<Rightarrow> 'z sim_state_scheme \<Rightarrow> error + 'z sim_state_scheme" where
  "create_person cb person_id ss =
     bindE (set_default_health cb [''id'' \<mapsto> PInt person_id] True (rng ss))
       (\<lambda>(person, g). Inr (ss\<lparr>people := people ss @ [person], rng := g\<rparr>))"

text \<open>
  The seeding loop of day \<^verbatim>\<open>-1\<close>:
  \<^verbatim>\<open>while ss[INITIAL_INFECTION] > ss[DAILY_CONFIRMED_CASES]: ss[SET_INFECTED](ss, ss[PEOPLE][randint(0, ss[POPULATION] - 1)])\<close>
\<close>

partial_function (option) seed_infections ::
  "'z callbacks \<Rightarrow> 'z sim_state_scheme \<Rightarrow> (error + 'z sim_state_scheme) option" where
  "seed_infections cb ss =
     (if real_of_int (initial_infection ss) > daily ss DAILY_CONFIRMED_CASES then
        (case random_randint 0 (population ss - 1) (rng ss) of
           Inl e \<Rightarrow> Some (Inl e)
         | Inr (j, g) \<Rightarrow>
             (case py_index (people ss) j of
                Inl e \<Rightarrow> Some (Inl e)
              | Inr person \<Rightarrow>
                  (case set_infected cb (People_ref (nat j)) (ss\<lparr>rng := g\<rparr>) of
                     Inl e \<Rightarrow> Some (Inl e)
                   | Inr ss' \<Rightarrow> seed_infections cb ss')))
      else Some (Inr ss))"

text \<open>
  \<^verbatim>\<open>for person in reversed(xs): ss[DAILY_HEALTH_EVALUATION](ss, person)\<close>.
  The reversed iterator holds an index that counts down; it yields the element at the index
  while the index is inside the list and is exhausted otherwise.
\<close>

fun health_loop ::
  "'z callbacks \<Rightarrow> (nat \<Rightarrow> person_ref) \<Rightarrow> ('z sim_state_scheme \<Rightarrow> pdict list) \<Rightarrow> nat \<Rightarrow>
   'z sim_state_scheme \<Rightarrow> error + 'z sim_state_scheme" where
  "health_loop cb ref xs 0 ss = Inr ss"
| "health_loop cb ref xs (Suc i) ss =
     (if i < length (xs ss) then
        bindE (daily_health_evaluation cb (ref i) ss) (health_loop cb ref xs i)
      else Inr ss)"

text \<open>
  \<^verbatim>\<open>for person in ss[PEOPLE]: ss[DAILY_EVALUATE_CONTACTS](ss, person, ss[PEOPLE])\<close>.
  The iterator holds an index that counts up and stops when it reaches the current length.
\<close>

partial_function (option) contacts_loop ::
  "'z callbacks \<Rightarrow> nat \<Rightarrow> 'z sim_state_scheme \<Rightarrow> (error + 'z sim_state_scheme) option" where
  "contacts_loop cb i ss =
     (if i < length (people ss) then
        (case daily_evaluate_contacts cb (People_ref i) ss of
           Inl e \<Rightarrow> Some (Inl e)
         | Inr ss' \<Rightarrow> contacts_loop cb (Suc i) ss')
      else Some (Inr ss))"

text \<open>
  An ordinary day up to the contact pass: the progress line (which reads three series at
  \<^verbatim>\<open>day\<close>), the update hook, the phase evaluation and the two health passes.
\<close>

definition begin_day ::
  "'z callbacks \<Rightarrow> int \<Rightarrow> 'z sim_state_scheme \<Rightarrow> error + 'z sim_state_scheme" where
  "begin_day cb day ss =
     bindE (series_at ss NEW_CONFIRMED_CASES_SERIES day) (\<lambda>_.
     bindE (series_at ss CUMULATIVE_CONFIRMED_CASES_SERIES day) (\<lambda>_.
     bindE (series_at ss CUMULATIVE_CONFIRMED_DEATHS_SERIES day) (\<lambda>_.
     bindE (daily_update_state cb day ss) (\<lambda>ss1.
     bindE (daily_phase_evaluation cb day ss1) (\<lambda>(changed, ss2).
     bindE (if changed then
              (case current_testing_probability ss2 of
                 None \<Rightarrow> Inl KeyError
               | Some p \<Rightarrow> update_testing_rates cb p ss2)
            else Inr ss2) (\<lambda>ss3.
     bindE (health_loop cb Hospitalized_ref hospitalized_people
              (length (hospitalized_people ss3)) ss3) (\<lambda>ss4.
     health_loop cb People_ref people (length (people ss4)) ss4)))))))"

definition end_day ::
  "'z callbacks \<Rightarrow> int \<Rightarrow> 'z sim_state_scheme \<Rightarrow> error + 'z sim_state_scheme" where
  "end_day cb day ss =
     bindE (case daily_event_evaluation cb of None \<Rightarrow> Inr ss | Some ev \<Rightarrow> ev day ss)
       (append_statistics day)"

definition run_day ::
  "'z callbacks \<Rightarrow> int \<Rightarrow> 'z sim_state_scheme \<Rightarrow> (error + 'z sim_state_scheme) option" where
  "run_day cb day ss0 =
     (let ss = reset_daily ss0 in
      if day = -1 then
        bindR (seed_infections cb ss) (\<lambda>ss1. Some (append_initial_statistics ss1))
      else
        bindR (Some (begin_day cb day ss)) (\<lambda>ss1.
        bindR (contacts_loop cb 0 ss1) (\<lambda>ss2. Some (end_day cb day ss2))))"

fun run_days ::
  "'z callbacks \<Rightarrow> int list \<Rightarrow> 'z sim_state_scheme \<Rightarrow> (error + 'z sim_state_scheme) option" where
  "run_days cb [] ss = Some (Inr ss)"
| "run_days cb (day # ds) ss = bindR (run_day cb day ss) (run_days cb ds)"

definition run_simulation ::
  "'z callbacks \<Rightarrow> 'z sim_state_scheme \<Rightarrow> (error + 'z sim_state_scheme) option" where
  "run_simulation cb ss =
     bindR (Some (for_each (create_person cb) [0..population ss - 1] ss)) (\<lambda>ss1.
       run_days cb [-1..simulation_days ss1 - 1] (ss1\<lparr>daily_population := population ss1\<rparr>))"

section \<open>simulate\_v2: phase conditions\<close>

text \<open>
  A condition is a dictionary read from a phases file; \<^verbatim>\<open>test_condition\<close> reads the
  entries \<^verbatim>\<open>type\<close>, \<^verbatim>\<open>count\<close>, \<^verbatim>\<open>days\<close> and \<^verbatim>\<open>day\<close>. The result is the value returned
  together with the lines printed.
\<close>

record condition =
  cond_type :: "string option"
  cond_count :: "real option"
  cond_days :: "real option"
  cond_day :: "real option"

definition item :: "'a option \<Rightarrow> error + 'a" where
  "item v = (case v of None \<Rightarrow> Inl KeyError | Some x \<Rightarrow> Inr x)"

definition test_condition ::
  "'z sim_state_scheme \<Rightarrow> condition \<Rightarrow> int \<Rightarrow> error + bool \<times> string list" where
  "test_condition ss condition day =
     bindE (item (cond_type condition)) (\<lambda>ty.
       if ty = ''cumulative cases exceeds'' then
         bindE (series_at ss CUMULATIVE_CASES_SERIES day) (\<lambda>v.
         bindE (item (cond_count condition)) (\<lambda>c. Inr (v \<ge> c, [])))
       else if ty = ''daily new confirmed above'' then
         bindE (series_at ss NEW_CONFIRMED_CASES_SERIES day) (\<lambda>v.
         bindE (item (cond_count condition)) (\<lambda>c. Inr (v \<ge> c, [])))
       else if ty = ''daily new confirmed below'' then
         bindE (series_at ss NEW_CONFIRMED_CASES_SERIES day) (\<lambda>v.
         bindE (item (cond_count condition)) (\<lambda>c. Inr (v \<le> c, [])))
       else if ty = ''cumulative confirmed cases exceeds'' then
         bindE (series_at ss CUMULATIVE_CONFIRMED_CASES_SERIES day) (\<lambda>v.
         bindE (item (cond_count condition)) (\<lambda>c. Inr (v \<ge> c, [])))
       else if ty = ''days after max active'' then
         bindE (item (cond_days condition)) (\<lambda>n.
           Inr (real_of_int (day - max_day ss MAX_ACTIVE_CASES) > n, []))
       else if ty = ''days after confirmed max active'' then
         bindE (item (cond_days condition)) (\<lambda>n.
           Inr (real_of_int (day - max_day ss MAX_ACTIVE_CONFIRMED_CASES) > n, []))
       else if ty = ''days in phase'' then
         bindE (item (current_phase ss)) (\<lambda>ph.
         bindE (item (start_day ph)) (\<lambda>start.
         bindE (item (cond_days condition)) (\<lambda>n.
           Inr (real_of_int (day - start) > n, []))))
       else if ty = ''day in simulation'' then
         bindE (item (cond_day condition)) (\<lambda>target. Inr (real_of_int day = target, []))
       else
         Inr (False, [''Unrecognized condition: '' @ [CHR 0x22] @ ty @ [CHR 0x22]]))"

text \<open>
  Modelled from the spec: the phase controller that calls \<^verbatim>\<open>test_condition\<close> is not in
  the repository. It checks the condition of the next phase once per day; this is the
  sequence of those checks over a list of days, with what each returns and all that is
  printed. A check that raises ends the run.
\<close>

fun check_daily ::
  "'z sim_state_scheme \<Rightarrow> condition \<Rightarrow> int list \<Rightarrow> error + bool list \<times> string list" where
  "check_daily ss condition [] = Inr ([], [])"
| "check_daily ss condition (day # ds) =
     bindE (test_condition ss condition day) (\<lambda>(advance, out).
     bindE (check_daily ss condition ds) (\<lambda>(advances, outs).
       Inr (advance # advances, out @ outs)))"

section \<open>simulate\_v2: the report\<close>

datatype json = JInt int | JReal real | JList "real list" | JObject "(string \<times> json) list"

datatype state_key =
    SIMULATION_DAYS | POPULATION | INITIAL_INFECTION | Max max_key | Series series_key

fun key_string :: "state_key \<Rightarrow> string" where
  "key_string SIMULATION_DAYS = ''simulation_days''"
| "key_string POPULATION = ''population''"
| "key_string INITIAL_INFECTION = ''initial_infection''"
| "key_string (Max m) = max_label m"
| "key_string (Series k) = series_label k"

fun lookup :: "'z sim_state_scheme \<Rightarrow> state_key \<Rightarrow> json" where
  "lookup ss SIMULATION_DAYS = JInt (simulation_days ss)"
| "lookup ss POPULATION = JInt (population ss)"
| "lookup ss INITIAL_INFECTION = JInt (initial_infection ss)"
| "lookup ss (Max m) = JInt (max_day ss m)"
| "lookup ss (Series k) = JList (series ss k)"

definition SERIALIZE_KEYS :: "state_key list" where
  "SERIALIZE_KEYS =
     [ SIMULATION_DAYS, POPULATION, INITIAL_INFECTION, Max MAX_NEW_DAILY_CASES,
       Max MAX_ACTIVE_CASES, Max MAX_ACTIVE_HOSPITALIZATIONS, Max MAX_ACTIVE_ICU,
       Series CUMULATIVE_CASES_SERIES, Series CUMULATIVE_CONFIRMED_CASES_SERIES,
       Series CUMULATIVE_RECOVERIES_SERIES, Series CUMULATIVE_CONFIRMED_RECOVERIES_SERIES,
       Series CUMULATIVE_DEATHS_SERIES, Series CUMULATIVE_CONFIRMED_DEATHS_SERIES,
       Series ACTIVE_CASES_SERIES, Series ACTIVE_CONFIRMED_CASES_SERIES,
       Series ACTIVE_HOSPITALIZED_CASES_SERIES, Series ACTIVE_ICU_CASES_SERIES,
       Series NEW_CASES_SERIES, Series NEW_CONFIRMED_CASES_SERIES,
       Series NEW_ACTIVE_CASES_SERIES, Series NEW_CONFIRMED_ACTIVE_CASES_SERIES,
       Series NEW_RECOVERIES_SERIES, Series NEW_DEATHS_SERIES ]"

text \<open>\<^verbatim>\<open>d[k] = v\<close> on a dictionary kept in insertion order.\<close>

fun dict_set :: "string \<Rightarrow> 'v \<Rightarrow> (string \<times> 'v) list \<Rightarrow> (string \<times> 'v) list" where
  "dict_set k v [] = [(k, v)]"
| "dict_set k v ((k', v') # d) = (if k' = k then (k, v) # d else (k', v') # dict_set k v d)"

fun phases_data :: "(string \<times> phase) list \<Rightarrow> (string \<times> json) list \<Rightarrow> error + (string \<times> json) list" where
  "phases_data [] acc = Inr acc"
| "phases_data ((key, val) # rest) acc =
     (case start_day val of
        None \<Rightarrow> phases_data rest acc
      | Some start \<Rightarrow>
          bindE (item (daily_contacts val)) (\<lambda>contacts.
          bindE (item (transmission_probability val)) (\<lambda>prob.
          bindE (item (Ro val)) (\<lambda>ro.
            phases_data rest
              (dict_set key (JObject [(''start_day'', JInt start), (''daily_contacts'', JReal contacts),
                 (''transmission_probability'', JReal prob), (''Ro'', JReal ro)]) acc)))))"

text \<open>The dictionary that \<^verbatim>\<open>write_data\<close> hands to \<^verbatim>\<open>json.dump\<close>.\<close>

definition write_data :: "'z sim_state_scheme \<Rightarrow> error + (string \<times> json) list" where
  "write_data ss =
     bindE (phases_data (phases ss) []) (\<lambda>pd.
       Inr (fold (\<lambda>key data. dict_set (key_string key) (lookup ss key) data) SERIALIZE_KEYS
              [(''phases'', JObject pd)]))"

section \<open>Collaborators used to run the engine\<close>

text \<open>
  Modelled from the spec: the infection setter (\<^verbatim>\<open>SET_INFECTED\<close>) is not in the
  repository. The individual is forced into the contagious state, the setter increments the
  true-case counter, and confirmed figures are the true counts multiplied by the testing
  probability.
\<close>

definition spec_set_infected ::
  "real \<Rightarrow> person_ref \<Rightarrow> 'z sim_state_scheme \<Rightarrow> error + 'z sim_state_scheme" where
  "spec_set_infected testing_probability r ss =
     (case r of
        People_ref i \<Rightarrow>
          if i < length (people ss) then
            Inr (ss\<lparr> people := (people ss)[i := (people ss ! i)(''state'' \<mapsto> PStr ''contagious'')],
                     daily := (daily ss)
                       (DAILY_CASES := daily ss DAILY_CASES + 1,
                        DAILY_CONFIRMED_CASES := testing_probability * (daily ss DAILY_CASES + 1)) \<rparr>)
          else Inl IndexError
      | Hospitalized_ref i \<Rightarrow> Inl IndexError)"

text \<open>
  A small set of collaborators with which the engine runs on concrete inputs: every
  person starts well, every contact evaluation records one new case (confirmed with the
  testing probability), every health evaluation records nothing, there are no events and
  the phase never changes.
\<close>

definition test_callbacks :: "real \<Rightarrow> 'z callbacks" where
  "test_callbacks testing_probability =
     \<lparr> set_default_health = (\<lambda>person flag g. Inr (person(''state'' \<mapsto> PStr ''well''), g)),
       set_infected = spec_set_infected testing_probability,
       daily_health_evaluation = (\<lambda>r ss. Inr ss),
       daily_evaluate_contacts = (\<lambda>r ss. Inr (ss\<lparr>daily := (daily ss)
           (DAILY_CASES := daily ss DAILY_CASES + 1,
            DAILY_CONFIRMED_CASES := testing_probability * (daily ss DAILY_CASES + 1))\<rparr>)),
       daily_update_state = (\<lambda>day ss. Inr ss),
       update_testing_rates = (\<lambda>p ss. Inr ss),
       daily_phase_evaluation = (\<lambda>day ss. Inr (False, ss)),
       daily_event_evaluation = None \<rparr>"

section \<open>simulate\_v2: what a day appends\<close>

text \<open>
  The entry that the statistics block appends to each series, from the previous entry of
  the series and the counters of the day, and the series that each maximum follows. They
  summarise \<^verbatim>\<open>append_statistics\<close> and are proved equal to it below.
\<close>

fun day_entry :: "series_key \<Rightarrow> real \<Rightarrow> (daily_key \<Rightarrow> real) \<Rightarrow> real" where
  "day_entry CUMULATIVE_CASES_SERIES prev d = prev + d DAILY_CASES"
| "day_entry CUMULATIVE_CONFIRMED_CASES_SERIES prev d = prev + d DAILY_CONFIRMED_CASES"
| "day_entry CUMULATIVE_RECOVERIES_SERIES prev d = prev + d DAILY_RECOVERIES"
| "day_entry CUMULATIVE_CONFIRMED_RECOVERIES_SERIES prev d = prev + d DAILY_CONFIRMED_RECOVERIES"
| "day_entry CUMULATIVE_DEATHS_SERIES prev d = prev + d DAILY_DEATHS"
| "day_entry CUMULATIVE_CONFIRMED_DEATHS_SERIES prev d = prev + d DAILY_CONFIRMED_DEATHS"
| "day_entry ACTIVE_CASES_SERIES prev d = prev + d DAILY_CASES - d DAILY_RECOVERIES - d DAILY_DEATHS"
| "day_entry ACTIVE_CONFIRMED_CASES_SERIES prev d =
     prev + d DAILY_CONFIRMED_CASES - d DAILY_CONFIRMED_RECOVERIES - d DAILY_CONFIRMED_DEATHS"
| "day_entry ACTIVE_HOSPITALIZED_CASES_SERIES prev d = prev + d DAILY_HOSPITALIZATIONS"
| "day_entry ACTIVE_ICU_CASES_SERIES prev d = prev + d DAILY_ICU"
| "day_entry NEW_CASES_SERIES prev d = d DAILY_CASES"
| "day_entry NEW_CONFIRMED_CASES_SERIES prev d = d DAILY_CONFIRMED_CASES"
| "day_entry NEW_ACTIVE_CASES_SERIES prev d = d DAILY_CASES - d DAILY_RECOVERIES - d DAILY_DEATHS"
| "day_entry NEW_CONFIRMED_ACTIVE_CASES_SERIES prev d =
     d DAILY_CONFIRMED_CASES - d DAILY_CONFIRMED_RECOVERIES - d DAILY_DEATHS"
| "day_entry NEW_RECOVERIES_SERIES prev d = d DAILY_RECOVERIES"
| "day_entry NEW_DEATHS_SERIES prev d = d DAILY_DEATHS"

fun max_series :: "max_key \<Rightarrow> series_key" where
  "max_series MAX_NEW_DAILY_CASES = NEW_CASES_SERIES"
| "max_series MAX_NEW_DAILY_CONFIRMED_CASES = NEW_CONFIRMED_CASES_SERIES"
| "max_series MAX_ACTIVE_CASES = ACTIVE_CASES_SERIES"
| "max_series MAX_ACTIVE_CONFIRMED_CASES = ACTIVE_CONFIRMED_CASES_SERIES"
| "max_series MAX_ACTIVE_HOSPITALIZATIONS = ACTIVE_HOSPITALIZED_CASES_SERIES"
| "max_series MAX_ACTIVE_ICU = ACTIVE_ICU_CASES_SERIES"

definition next_series ::
  "nat \<Rightarrow> (series_key \<Rightarrow> real list) \<Rightarrow> (daily_key \<Rightarrow> real) \<Rightarrow> series_key \<Rightarrow> real list" where
  "next_series d S D k = S k @ [day_entry k (S k ! d) D]"

definition next_max ::
  "nat \<Rightarrow> (series_key \<Rightarrow> real list) \<Rightarrow> (max_key \<Rightarrow> int) \<Rightarrow> (daily_key \<Rightarrow> real) \<Rightarrow> max_key \<Rightarrow> int" where
  "next_max d S M D m =
     (if day_entry (max_series m) (S (max_series m) ! d) D > S (max_series m) ! nat (M m)
      then int d + 1 else M m)"

text \<open>
  Progress through the statistics block of day \<^verbatim>\<open>d\<close> started in \<^verbatim>\<open>ss\<close>: the series in
  \<^verbatim>\<open>A\<close> have their new entry and the maxima in \<^verbatim>\<open>M\<close> have been updated.
\<close>

definition appended ::
  "'z sim_state_scheme \<Rightarrow> nat \<Rightarrow> series_key set \<Rightarrow> max_key set \<Rightarrow> 'z sim_state_scheme \<Rightarrow> bool" where
  "appended ss d A M cur \<longleftrightarrow>
     (\<forall>k. length (series ss k) = Suc d) \<and>
     (\<forall>m. 0 \<le> max_day ss m \<and> max_day ss m \<le> int d) \<and>
     daily cur = daily ss \<and>
     (\<forall>k. series cur k = (if k \<in> A then next_series d (series ss) (daily ss) k else series ss k)) \<and>
     (\<forall>m. max_day cur m =
        (if m \<in> M then next_max d (series ss) (max_day ss) (daily ss) m else max_day ss m))"

text \<open>Progress through the block of the seeded initial condition.\<close>

definition seeded ::
  "'z sim_state_scheme \<Rightarrow> series_key set \<Rightarrow> 'z sim_state_scheme \<Rightarrow> bool" where
  "seeded ss A cur \<longleftrightarrow>
     daily cur = daily ss \<and> max_day cur = max_day ss \<and>
     (\<forall>k. series cur k = (if k \<in> A then series ss k @ [day_entry k 0 (daily ss)] else series ss k))"

text \<open>The series have \<^verbatim>\<open>n\<close> entries and the days of the maxima are among them.\<close>

definition tracked :: "nat \<Rightarrow> (series_key \<Rightarrow> real list) \<Rightarrow> (max_key \<Rightarrow> int) \<Rightarrow> bool" where
  "tracked n S M \<longleftrightarrow> (\<forall>k. length (S k) = n) \<and> (\<forall>m. 0 \<le> M m \<and> M m < int n)"

text \<open>A collaborator that, when it returns, has left the series and the maxima alone.\<close>

definition keeps :: "('z sim_state_scheme \<Rightarrow> error + 'z sim_state_scheme) \<Rightarrow> bool" where
  "keeps f \<longleftrightarrow> (\<forall>ss ss'. f ss = Inr ss' \<longrightarrow> series ss' = series ss \<and> max_day ss' = max_day ss)"

definition keeps_statistics :: "'z callbacks \<Rightarrow> bool" where
  "keeps_statistics cb \<longleftrightarrow>
     (\<forall>r. keeps (set_infected cb r)) \<and>
     (\<forall>r. keeps (daily_health_evaluation cb r)) \<and>
     (\<forall>r. keeps (daily_evaluate_contacts cb r)) \<and>
     (\<forall>day. keeps (daily_update_state cb day)) \<and>
     (\<forall>p. keeps (update_testing_rates cb p)) \<and>
     (\<forall>day ss changed ss'. daily_phase_evaluation cb day ss = Inr (changed, ss')
        \<longrightarrow> series ss' = series ss \<and> max_day ss' = max_day ss) \<and>
     (\<forall>ev day. daily_event_evaluation cb = Some ev \<longrightarrow> keeps (ev day))"

text \<open>
  The day \<^verbatim>\<open>m\<close> recorded for a running maximum of the series \<^verbatim>\<open>xs\<close>: an entry of the
  series, at least every entry, and strictly above every earlier one.
\<close>

definition running_max :: "'a::linorder list \<Rightarrow> int \<Rightarrow> bool" where
  "running_max xs m \<longleftrightarrow>
     0 \<le> m \<and> nat m < length xs \<and>
     (\<forall>d < length xs. xs ! d \<le> xs ! nat m) \<and> (\<forall>d < nat m. xs ! d < xs ! nat m)"

text \<open>
  The counters of every day determine the series: \<^verbatim>\<open>Ds ! j\<close> are the counters with which
  day \<^verbatim>\<open>j\<close> was appended (\<^verbatim>\<open>j = 0\<close> is the seeded initial condition).
\<close>

definition history :: "nat \<Rightarrow> (series_key \<Rightarrow> real list) \<Rightarrow> (daily_key \<Rightarrow> real) list \<Rightarrow> bool" where
  "history d S Ds \<longleftrightarrow>
     length Ds = Suc d \<and>
     (\<forall>k. S k ! 0 = day_entry k 0 (Ds ! 0)) \<and>
     (\<forall>j < d. \<forall>k. S k ! Suc j = day_entry k (S k ! j) (Ds ! Suc j))"

text \<open>The condition kinds that \<^verbatim>\<open>test_condition\<close> recognizes, and the line it prints otherwise.\<close>

definition recognized_kinds :: "string list" where
  "recognized_kinds =
     [ ''cumulative cases exceeds'', ''daily new confirmed above'', ''daily new confirmed below'',
       ''cumulative confirmed cases exceeds'', ''days after max active'',
       ''days after confirmed max active'', ''days in phase'', ''day in simulation'' ]"

definition unrecognized_report :: "string \<Rightarrow> string" where
  "unrecognized_report ty = ''Unrecognized condition: '' @ [CHR 0x22] @ ty @ [CHR 0x22]"

definition bogus_condition :: condition where
  "bogus_condition =
     \<lparr> cond_type = Some ''weekday'', cond_count = None, cond_days = None, cond_day = None \<rparr>"

section \<open>exercise\_2: health states and people\<close>

datatype health = Well | Infected | Contagious | Recovering | Immune | Dead

text \<open>
  An entry of the table of health states. The entry of \<^verbatim>\<open>dead\<close> has neither a next state
  nor a death rate; reading a missing entry raises.
\<close>

record health_state =
  days_at_state :: int
  can_be_infected :: bool
  next_state :: "health option"
  death_rate :: "real option"

fun HEALTH_STATES :: "health \<Rightarrow> health_state" where
  "HEALTH_STATES Well =
     \<lparr>days_at_state = -1, can_be_infected = True, next_state = Some Infected, death_rate = Some 0\<rparr>"
| "HEALTH_STATES Infected =
     \<lparr>days_at_state = 2, can_be_infected = False, next_state = Some Contagious, death_rate = Some 0\<rparr>"
| "HEALTH_STATES Contagious =
     \<lparr>days_at_state = 4, can_be_infected = False, next_state = Some Recovering,
      death_rate = Some (3 / 100)\<rparr>"
| "HEALTH_STATES Recovering =
     \<lparr>days_at_state = 10, can_be_infected = False, next_state = Some Immune, death_rate = Some 0\<rparr>"
| "HEALTH_STATES Immune =
     \<lparr>days_at_state = -1, can_be_infected = False, next_state = Some Well, death_rate = Some 0\<rparr>"
| "HEALTH_STATES Dead =
     \<lparr>days_at_state = -1, can_be_infected = False, next_state = None, death_rate = None\<rparr>"

record person =
  pid :: int
  state :: health
  days :: int

text \<open>
  The constants of the script are the configuration of a run. The table of health states
  is a parameter so that a run with other durations and death rates can be stated.
\<close>

record config =
  cfg_population :: int
  cfg_initial_infection :: int
  cfg_simulation_days :: int
  cfg_daily_contacts :: int
  cfg_transmission_probability :: real
  cfg_health_states :: "health \<Rightarrow> health_state"

definition default_config :: config where
  "default_config =
     \<lparr> cfg_population = 10000, cfg_initial_infection = 20, cfg_simulation_days = 200,
       cfg_daily_contacts = 10, cfg_transmission_probability = 3 / 100,
       cfg_health_states = HEALTH_STATES \<rparr>"

text \<open>The variables of the script.\<close>

record script =
  people_list :: "person list"
  generator :: rng
  current_population :: int
  new_cases :: int
  new_recoveries :: int
  new_deaths :: int
  cumulative_cases :: "int list"
  active_cases :: "int list"
  cumulative_recoveries :: "int list"
  cumulative_deaths :: "int list"
  daily_new_cases :: "int list"
  daily_new_active_cases :: "int list"
  daily_new_recoveries :: "int list"
  daily_new_deaths :: "int list"
  maximum_active_cases :: int
  maximum_active_cases_day :: int
  maximum_daily_new_cases :: int
  maximum_new_cases_day :: int
  maximum_new_cases_cumulative :: int

text \<open>
  \<^verbatim>\<open>int(daily_contacts / 2)\<close>: the quotient truncated towards zero; a range over a negative
  number is empty.
\<close>

definition half_contacts :: "int \<Rightarrow> nat" where
  "half_contacts c = nat (if 0 \<le> c then c div 2 else - ((- c) div 2))"

section \<open>exercise\_2: the initial infection\<close>

text \<open>\<^verbatim>\<open>people[random.randint(0, POPULATION - 1)]['state'] = 'contagious'\<close>\<close>

definition infect_one :: "config \<Rightarrow> script \<Rightarrow> error + script" where
  "infect_one cfg st =
     bindE (random_randint 0 (cfg_population cfg - 1) (generator st)) (\<lambda>(j, g).
     bindE (py_index (people_list st) j) (\<lambda>p.
       Inr (st\<lparr> people_list := (people_list st)[nat j := p\<lparr>state := Contagious\<rparr>],
                generator := g \<rparr>)))"

fun initial_infection_loop :: "config \<Rightarrow> nat \<Rightarrow> script \<Rightarrow> error + script" where
  "initial_infection_loop cfg 0 st = Inr st"
| "initial_infection_loop cfg (Suc n) st = bindE (infect_one cfg st) (initial_infection_loop cfg n)"

section \<open>exercise\_2: the health pass\<close>

text \<open>
  The body of \<^verbatim>\<open>for person in reversed(people)\<close> for the person at index \<^verbatim>\<open>i\<close>.
  \<^verbatim>\<open>people.remove(person)\<close> removes the first element equal to the person.
\<close>

definition update_health :: "config \<Rightarrow> nat \<Rightarrow> script \<Rightarrow> error + script" where
  "update_health cfg i st =
     (let person = people_list st ! i;
          health_state = cfg_health_states cfg (state person);
          person = person\<lparr>days := days person + 1\<rparr>;
          st = st\<lparr>people_list := (people_list st)[i := person]\<rparr>
      in if 0 < days_at_state health_state \<and> days_at_state health_state < days person then
           bindE (item (death_rate health_state)) (\<lambda>rate.
             let (dies, g) =
                   (if rate > 0 then
                      (let (u, g) = random_random (generator st) in (u < rate, g))
                    else (False, generator st))
             in if dies then
                  Inr (st\<lparr> people_list := remove1 person (people_list st),
                           new_deaths := new_deaths st + 1,
                           current_population := current_population st - 1,
                           generator := g \<rparr>)
                else
                  bindE (item (next_state health_state)) (\<lambda>next.
                    Inr (st\<lparr> people_list := (people_list st)[i := person\<lparr>state := next, days := 1\<rparr>],
                             new_recoveries :=
                               (if next = Immune then new_recoveries st + 1 else new_recoveries st),
                             generator := g \<rparr>)))
         else Inr st)"

text \<open>
  The reversed iterator counts an index down from the last element and is exhausted as soon
  as the index is outside the list.
\<close>

fun health_pass :: "config \<Rightarrow> nat \<Rightarrow> script \<Rightarrow> error + script" where
  "health_pass cfg 0 st = Inr st"
| "health_pass cfg (Suc i) st =
     (if i < length (people_list st) then bindE (update_health cfg i st) (health_pass cfg i)
      else Inr st)"

section \<open>exercise\_2: the contact pass\<close>

text \<open>
  The person at index \<^verbatim>\<open>i\<close> can be infected: up to \<^verbatim>\<open>n\<close> contacts are sampled, and the
  loop is left at the first infection.
\<close>

fun look_for_infectious :: "config \<Rightarrow> nat \<Rightarrow> nat \<Rightarrow> script \<Rightarrow> error + script" where
  "look_for_infectious cfg 0 i st = Inr st"
| "look_for_infectious cfg (Suc n) i st =
     bindE (random_randint 0 (current_population st - 1) (generator st)) (\<lambda>(j, g).
     bindE (py_index (people_list st) j) (\<lambda>contact.
       if state contact = Contagious then
         (let (u, g) = random_random g in
          if u < cfg_transmission_probability cfg then
            Inr (st\<lparr> people_list := (people_list st)
                       [i := (people_list st ! i)\<lparr>state := Infected, days := 1\<rparr>],
                     new_cases := new_cases st + 1,
                     generator := g \<rparr>)
          else look_for_infectious cfg n i (st\<lparr>generator := g\<rparr>))
       else look_for_infectious cfg n i (st\<lparr>generator := g\<rparr>)))"

text \<open>The person is contagious: \<^verbatim>\<open>n\<close> contacts are sampled, every one of them.\<close>

fun look_for_susceptible :: "config \<Rightarrow> nat \<Rightarrow> script \<Rightarrow> error + script" where
  "look_for_susceptible cfg 0 st = Inr st"
| "look_for_susceptible cfg (Suc n) st =
     bindE (random_randint 0 (current_population st - 1) (generator st)) (\<lambda>(j, g).
     bindE (py_index (people_list st) j) (\<lambda>contact.
       if can_be_infected (cfg_health_states cfg (state contact)) then
         (let (u, g) = random_random g in
          if u < cfg_transmission_probability cfg then
            look_for_susceptible cfg n
              (st\<lparr> people_list := (people_list st)[nat j := contact\<lparr>state := Infected, days := 1\<rparr>],
                   new_cases := new_cases st + 1,
                   generator := g \<rparr>)
          else look_for_susceptible cfg n (st\<lparr>generator := g\<rparr>))
       else look_for_susceptible cfg n (st\<lparr>generator := g\<rparr>)))"

text \<open>The body of \<^verbatim>\<open>for person in people\<close> for the person at index \<^verbatim>\<open>i\<close>.\<close>

definition evaluate_person :: "config \<Rightarrow> nat \<Rightarrow> script \<Rightarrow> error + script" where
  "evaluate_person cfg i st =
     (let person = people_list st ! i in
      if can_be_infected (cfg_health_states cfg (state person)) then
        look_for_infectious cfg (half_contacts (cfg_daily_contacts cfg)) i st
      else if state person = Contagious then
        look_for_susceptible cfg (half_contacts (cfg_daily_contacts cfg)) st
      else Inr st)"

text \<open>
  The list iterator counts an index up and stops when the index reaches the length the
  list has then.
\<close>

function contact_pass :: "config \<Rightarrow> nat \<Rightarrow> script \<Rightarrow> error + script" where
  "contact_pass cfg i st =
     (if i < length (people_list st) then
        (case evaluate_person cfg i st of
           Inl e \<Rightarrow> Inl e
         | Inr st' \<Rightarrow> contact_pass cfg (Suc i) st')
      else Inr st)"
  by pat_completeness auto

section \<open>exercise\_2: the statistics of a day and the run\<close>

text \<open>The statements that append the statistics of \<^verbatim>\<open>day\<close> and track the maxima.\<close>

definition append_day :: "int \<Rightarrow> script \<Rightarrow> error + script" where
  "append_day day st =
     bindE (py_index (cumulative_cases st) day) (\<lambda>c.
     let st = st\<lparr>cumulative_cases := cumulative_cases st @ [c + new_cases st]\<rparr> in
     bindE (py_index (active_cases st) day) (\<lambda>a.
     let st = st\<lparr>active_cases := active_cases st
                  @ [a + new_cases st - new_recoveries st - new_deaths st]\<rparr> in
     bindE (py_index (active_cases st) (day + 1)) (\<lambda>a1.
     bindE (if a1 > maximum_active_cases st then
              bindE (py_index (active_cases st) (day + 1)) (\<lambda>a2.
                Inr (st\<lparr>maximum_active_cases := a2, maximum_active_cases_day := day\<rparr>))
            else Inr st) (\<lambda>st.
     bindE (py_index (cumulative_recoveries st) day) (\<lambda>r.
     let st = st\<lparr>cumulative_recoveries := cumulative_recoveries st @ [r + new_recoveries st]\<rparr> in
     bindE (py_index (cumulative_deaths st) day) (\<lambda>d.
     let st = st\<lparr>cumulative_deaths := cumulative_deaths st @ [d + new_deaths st]\<rparr> in
     bindE (if maximum_daily_new_cases st < new_cases st then
              bindE (py_index (cumulative_cases st) (day + 1)) (\<lambda>c1.
                Inr (st\<lparr> maximum_daily_new_cases := new_cases st,
                         maximum_new_cases_day := day,
                         maximum_new_cases_cumulative := c1 \<rparr>))
            else Inr st) (\<lambda>st.
       Inr (st\<lparr> daily_new_cases := daily_new_cases st @ [new_cases st],
                daily_new_active_cases := daily_new_active_cases st
                  @ [new_cases st - new_recoveries st - new_deaths st],
                daily_new_recoveries := daily_new_recoveries st @ [new_recoveries st],
                daily_new_deaths := daily_new_deaths st @ [new_deaths st] \<rparr>))))))))"

text \<open>One round of \<^verbatim>\<open>for day in range(SIMULATION_DAYS)\<close>.\<close>

definition simulate_day :: "config \<Rightarrow> int \<Rightarrow> script \<Rightarrow> error + script" where
  "simulate_day cfg day st =
     (let st = st\<lparr>new_cases := 0, new_recoveries := 0, new_deaths := 0\<rparr> in
      bindE (health_pass cfg (length (people_list st)) st) (\<lambda>st.
      bindE (contact_pass cfg 0 st) (append_day day)))"

text \<open>The script from the creation of the population to the end of the last day.\<close>

definition initial_script :: "config \<Rightarrow> rng \<Rightarrow> script" where
  "initial_script cfg g =
     \<lparr> people_list = map (\<lambda>person_id. \<lparr>pid = person_id, state = Well, days = 1\<rparr>)
                       [0..cfg_population cfg - 1],
       generator = g, current_population = 0,
       new_cases = 0, new_recoveries = 0, new_deaths = 0,
       cumulative_cases = [], active_cases = [], cumulative_recoveries = [],
       cumulative_deaths = [], daily_new_cases = [], daily_new_active_cases = [],
       daily_new_recoveries = [], daily_new_deaths = [],
       maximum_active_cases = 0, maximum_active_cases_day = 0, maximum_daily_new_cases = 0,
       maximum_new_cases_day = 0, maximum_new_cases_cumulative = 0 \<rparr>"

definition start_tracking :: "config \<Rightarrow> script \<Rightarrow> script" where
  "start_tracking cfg st =
     st\<lparr> cumulative_cases := [cfg_initial_infection cfg],
         active_cases := [cfg_initial_infection cfg],
         cumulative_recoveries := [0], cumulative_deaths := [0],
         daily_new_cases := [0], daily_new_active_cases := [0],
         daily_new_recoveries := [0], daily_new_deaths := [0],
         maximum_active_cases := 0, maximum_active_cases_day := 0,
         maximum_daily_new_cases := 0, maximum_new_cases_day := 0,
         maximum_new_cases_cumulative := 0,
         current_population := cfg_population cfg \<rparr>"

definition exercise_2 :: "config \<Rightarrow> rng \<Rightarrow> error + script" where
  "exercise_2 cfg g =
     bindE (initial_infection_loop cfg (nat (cfg_initial_infection cfg)) (initial_script cfg g))
       (\<lambda>st. for_each (simulate_day cfg) [0..cfg_simulation_days cfg - 1] (start_tracking cfg st))"

text \<open>What the script has recorded: the eight series and the maxima.\<close>

definition recorded ::
  "script \<Rightarrow> (int list \<times> int list \<times> int list \<times> int list) \<times>
             (int list \<times> int list \<times> int list \<times> int list) \<times> (int \<times> int \<times> int \<times> int \<times> int)" where
  "recorded st =
     ((cumulative_cases st, active_cases st, cumulative_recoveries st, cumulative_deaths st),
      (daily_new_cases st, daily_new_active_cases st, daily_new_recoveries st, daily_new_deaths st),
      (maximum_active_cases st, maximum_active_cases_day st, maximum_daily_new_cases st,
       maximum_new_cases_day st, maximum_new_cases_cumulative st))"

text \<open>
  What the contact pass leaves as it is: the number of people, what has been recorded, the
  population count and the counters of recoveries and deaths.
\<close>

definition contact_frame :: "script \<Rightarrow> script \<Rightarrow> bool" where
  "contact_frame st st' \<longleftrightarrow>
     length (people_list st') = length (people_list st) \<and> recorded st' = recorded st \<and>
     current_population st' = current_population st \<and>
     new_recoveries st' = new_recoveries st \<and> new_deaths st' = new_deaths st"

text \<open>A property of the state that a computation returns, if it returns one.\<close>

definition returns :: "error + 'a \<Rightarrow> ('a \<Rightarrow> bool) \<Rightarrow> bool" where
  "returns r Q \<longleftrightarrow> (case r of Inl e \<Rightarrow> True | Inr x \<Rightarrow> Q x)"

text \<open>
  The four cumulative series and the daily series of the script have \<^verbatim>\<open>n\<close> entries, the
  active cases are the cases less the recoveries and the deaths, and each cumulative entry
  is the one before plus the entry of the day.
\<close>

definition conserved :: "nat \<Rightarrow> script \<Rightarrow> bool" where
  "conserved n st \<longleftrightarrow>
     length (cumulative_cases st) = n \<and> length (active_cases st) = n \<and>
     length (cumulative_recoveries st) = n \<and> length (cumulative_deaths st) = n \<and>
     length (daily_new_cases st) = n \<and> length (daily_new_recoveries st) = n \<and>
     length (daily_new_deaths st) = n \<and>
     (\<forall>d < n. active_cases st ! d =
        cumulative_cases st ! d - cumulative_recoveries st ! d - cumulative_deaths st ! d) \<and>
     (\<forall>d. Suc d < n \<longrightarrow>
        cumulative_cases st ! Suc d = cumulative_cases st ! d + daily_new_cases st ! Suc d \<and>
        cumulative_recoveries st ! Suc d =
          cumulative_recoveries st ! d + daily_new_recoveries st ! Suc d \<and>
        cumulative_deaths st ! Suc d = cumulative_deaths st ! d + daily_new_deaths st ! Suc d)"

text \<open>A small configuration on which the script is run below.\<close>

definition small_config :: config where
  "small_config =
     \<lparr> cfg_population = 2, cfg_initial_infection = 1, cfg_simulation_days = 1,
       cfg_daily_contacts = 2, cfg_transmission_probability = 1,
       cfg_health_states = HEALTH_STATES \<rparr>"

text \<open>
  What the script records of a maximum: the value \<^verbatim>\<open>v\<close> starts at 0 and is compared with
  the entries that the loop appends (the entries after the first); the day \<^verbatim>\<open>m\<close> counts
  the rounds of the loop from 0, so that the entry of day \<^verbatim>\<open>m\<close> is at index \<^verbatim>\<open>m + 1\<close>.
\<close>

definition recorded_max :: "int list \<Rightarrow> int \<Rightarrow> int \<Rightarrow> bool" where
  "recorded_max xs v m \<longleftrightarrow>
     0 \<le> v \<and> (\<forall>x \<in> set (tl xs). x \<le> v) \<and>
     (0 < v \<longrightarrow> running_max (tl xs) m \<and> tl xs ! nat m = v)"

definition maxima_recorded :: "script \<Rightarrow> bool" where
  "maxima_recorded st \<longleftrightarrow>
     recorded_max (active_cases st) (maximum_active_cases st) (maximum_active_cases_day st) \<and>
     recorded_max (daily_new_cases st) (maximum_daily_new_cases st) (maximum_new_cases_day st)"




text \<open>Nobody is beyond the contagious state; and no recovery has been counted today.\<close>

definition nobody_recovering :: "person list \<Rightarrow> bool" where
  "nobody_recovering xs \<longleftrightarrow>
     (\<forall>p \<in> set xs. state p = Well \<or> state p = Infected \<or> state p = Contagious)"

definition none_recovering :: "script \<Rightarrow> bool" where
  "none_recovering st \<longleftrightarrow> nobody_recovering (people_list st) \<and> new_recoveries st = 0"


text \<open>A state of the script with a contagious person and two well, for the small runs below.\<close>

definition small_script :: script where
  "small_script =
     (start_tracking small_config (initial_script small_config ([1, 0, 2, 0] @- sconst 0)))
       \<lparr> people_list := [\<lparr>pid = 0, state = Contagious, days = 1\<rparr>, \<lparr>pid = 1, state = Well, days = 1\<rparr>,
                          \<lparr>pid = 2, state = Well, days = 1\<rparr>],
         current_population := 3 \<rparr>"

text \<open>
  The contact that a sampling draws from the list \<^verbatim>\<open>xs\<close> when the population count is
  \<^verbatim>\<open>n\<close> and the next raw draw is the head of \<^verbatim>\<open>g\<close>.
\<close>

definition sampled :: "person list \<Rightarrow> int \<Rightarrow> rng \<Rightarrow> person" where
  "sampled xs n g = xs ! nat (int (shd g) mod n)"

text \<open>What the contacts of a day can do to a person who can be infected: nothing or one infection.\<close>

definition infected_at_most_once :: "nat \<Rightarrow> script \<Rightarrow> script \<Rightarrow> bool" where
  "infected_at_most_once i st st' \<longleftrightarrow>
     (people_list st' = people_list st \<and> new_cases st' = new_cases st) \<or>
     (people_list st' = (people_list st)[i := (people_list st ! i)\<lparr>state := Infected, days := 1\<rparr>] \<and>
      new_cases st' = new_cases st + 1)"

section \<open>exercise\_3d: health evaluation and contacts\<close>

text \<open>
  The entries of the simulation state that the three functions of \<^verbatim>\<open>exercise_3d\<close> read
  and write, and the random source. The table of health states is a parameter, as above.
\<close>

record state_3d =
  s_people :: "person list"
  s_daily_cases :: int
  s_daily_recoveries :: int
  s_daily_deaths :: int
  s_daily_population :: int
  s_current_daily_contacts :: int
  s_current_transmission_probability :: real
  s_generator :: rng

text \<open>
  \<^verbatim>\<open>advance_health_state(sim_state, person, old_health_state)\<close> for the person at index
  \<^verbatim>\<open>i\<close> of the list of people.
\<close>

definition advance_health_state ::
  "state_3d \<Rightarrow> nat \<Rightarrow> health_state \<Rightarrow> error + state_3d" where
  "advance_health_state ss i old_health_state =
     bindE (item (death_rate old_health_state)) (\<lambda>rate.
       let person = s_people ss ! i;
           (dies, g) =
             (if rate > 0 then
                (let (u, g) = random_random (s_generator ss) in (u < rate, g))
              else (False, s_generator ss))
       in if dies then
            Inr (ss\<lparr> s_people := remove1 person (s_people ss),
                     s_daily_deaths := s_daily_deaths ss + 1,
                     s_daily_population := s_daily_population ss - 1,
                     s_generator := g \<rparr>)
          else
            bindE (item (next_state old_health_state)) (\<lambda>next.
              Inr (ss\<lparr> s_people := (s_people ss)[i := person\<lparr>state := next, days := 1\<rparr>],
                       s_daily_recoveries :=
                         (if next = Immune then s_daily_recoveries ss + 1 else s_daily_recoveries ss),
                       s_daily_cases :=
                         (if next \<noteq> Immune \<and> next = Infected then s_daily_cases ss + 1
                          else s_daily_cases ss),
                       s_generator := g \<rparr>)))"

definition evaluate_health_for_day ::
  "(health \<Rightarrow> health_state) \<Rightarrow> state_3d \<Rightarrow> nat \<Rightarrow> error + state_3d" where
  "evaluate_health_for_day table ss i =
     (let person = s_people ss ! i;
          old_health_state = table (state person);
          person = person\<lparr>days := days person + 1\<rparr>;
          ss = ss\<lparr>s_people := (s_people ss)[i := person]\<rparr>
      in if 0 < days_at_state old_health_state \<and> days_at_state old_health_state < days person
         then advance_health_state ss i old_health_state
         else Inr ss)"

text \<open>The two loops of \<^verbatim>\<open>evaluate_contacts\<close> over \<^verbatim>\<open>n\<close> sampled contacts.\<close>

fun contacts_of_susceptible ::
  "(health \<Rightarrow> health_state) \<Rightarrow> nat \<Rightarrow> nat \<Rightarrow> state_3d \<Rightarrow> error + state_3d" where
  "contacts_of_susceptible table 0 i ss = Inr ss"
| "contacts_of_susceptible table (Suc n) i ss =
     bindE (random_randint 0 (s_daily_population ss - 1) (s_generator ss)) (\<lambda>(j, g).
     bindE (py_index (s_people ss) j) (\<lambda>contact.
       if state contact = Contagious then
         (let (u, g) = random_random g in
          if u < s_current_transmission_probability ss then
            advance_health_state (ss\<lparr>s_generator := g\<rparr>) i (table (state (s_people ss ! i)))
          else contacts_of_susceptible table n i (ss\<lparr>s_generator := g\<rparr>))
       else contacts_of_susceptible table n i (ss\<lparr>s_generator := g\<rparr>)))"

fun contacts_of_contagious ::
  "(health \<Rightarrow> health_state) \<Rightarrow> nat \<Rightarrow> state_3d \<Rightarrow> error + state_3d" where
  "contacts_of_contagious table 0 ss = Inr ss"
| "contacts_of_contagious table (Suc n) ss =
     bindE (random_randint 0 (s_daily_population ss - 1) (s_generator ss)) (\<lambda>(j, g).
     bindE (py_index (s_people ss) j) (\<lambda>contact.
       if can_be_infected (table (state contact)) then
         (let (u, g) = random_random g in
          if u < s_current_transmission_probability ss then
            bindE (advance_health_state (ss\<lparr>s_generator := g\<rparr>) (nat j) (table (state contact)))
              (contacts_of_contagious table n)
          else contacts_of_contagious table n (ss\<lparr>s_generator := g\<rparr>))
       else contacts_of_contagious table n (ss\<lparr>s_generator := g\<rparr>)))"

definition evaluate_contacts ::
  "(health \<Rightarrow> health_state) \<Rightarrow> state_3d \<Rightarrow> nat \<Rightarrow> error + state_3d" where
  "evaluate_contacts table ss i =
     (let person = s_people ss ! i in
      if can_be_infected (table (state person)) then
        contacts_of_susceptible table (half_contacts (s_current_daily_contacts ss)) i ss
      else if state person = Contagious then
        contacts_of_contagious table (half_contacts (s_current_daily_contacts ss)) ss
      else Inr ss)"

text \<open>A small state on which the functions are run below: a contagious person and two well.\<close>

definition small_state_3d :: state_3d where
  "small_state_3d =
     \<lparr> s_people = [\<lparr>pid = 0, state = Contagious, days = 1\<rparr>, \<lparr>pid = 1, state = Well, days = 1\<rparr>,
                   \<lparr>pid = 2, state = Well, days = 1\<rparr>],
       s_daily_cases = 0, s_daily_recoveries = 0, s_daily_deaths = 0, s_daily_population = 3,
       s_current_daily_contacts = 4, s_current_transmission_probability = 1,
       s_generator = [1, 0, 2, 0] @- sconst 0 \<rparr>"

definition infected_at_most_once_3d :: "nat \<Rightarrow> state_3d \<Rightarrow> state_3d \<Rightarrow> bool" where
  "infected_at_most_once_3d i ss ss' \<longleftrightarrow>
     (s_people ss' = s_people ss \<and> s_daily_cases ss' = s_daily_cases ss) \<or>
     (s_people ss' = (s_people ss)[i := (s_people ss ! i)\<lparr>state := Infected, days := 1\<rparr>] \<and>
      s_daily_cases ss' = s_daily_cases ss + 1)"

section \<open>simulate\_v2: the statistics block in closed form\<close>

lemma bindE_Inr: "bindE m f = Inr y \<longleftrightarrow> (\<exists>x. m = Inr x \<and> f x = Inr y)"
  by (cases m) (simp_all add: bindE_def)

lemma bindR_Inr: "bindR m f = Some (Inr y) \<longleftrightarrow> (\<exists>x. m = Some (Inr x) \<and> f x = Some (Inr y))"
  by (auto simp: bindR_def split: option.splits sum.splits)

lemma py_index_nat: "d < length xs \<Longrightarrow> py_index xs (int d) = Inr (xs ! d)"
  by (simp add: py_index_def)

lemma append_next_ok:
  "length (series ss k) = Suc d \<Longrightarrow>
   append_next k (int d) f ss = Inr (append_series k (f (series ss k ! d) (daily ss)) ss)"
  by (simp add: append_next_def series_at_def py_index_nat bindE_def)

lemma update_max_ok:
  assumes "length (series ss k) = Suc (Suc d)" "0 \<le> max_day ss m" "max_day ss m \<le> int d"
  shows "update_max m k (int d) ss =
     Inr (ss\<lparr>max_day := (max_day ss)
        (m := if series ss k ! Suc d > series ss k ! nat (max_day ss m) then int d + 1
              else max_day ss m)\<rparr>)"
proof -
  have a: "series_at ss k (int d + 1) = Inr (series ss k ! Suc d)"
    using assms(1) py_index_nat [of "Suc d" "series ss k"] by (simp add: series_at_def add.commute)
  have b: "series_at ss k (max_day ss m) = Inr (series ss k ! nat (max_day ss m))"
    using assms by (simp add: series_at_def py_index_def)
  show ?thesis
    by (simp add: update_max_def a b bindE_def)
qed

lemma seqE_next:
  assumes "appended ss d A M cur" and "k \<notin> A" and "f = day_entry k"
    and "\<And>cur'. appended ss d (insert k A) M cur' \<Longrightarrow> \<exists>s'. seqE fs cur' = Inr s' \<and> Q s'"
  shows "\<exists>s'. seqE (append_next k (int d) f # fs) cur = Inr s' \<and> Q s'"
proof -
  let ?cur' = "append_series k (f (series cur k ! d) (daily cur)) cur"
  have "length (series cur k) = Suc d"
    using assms(1,2) by (simp add: appended_def)
  then have run: "append_next k (int d) f cur = Inr ?cur'"
    by (rule append_next_ok)
  have "appended ss d (insert k A) M ?cur'"
    using assms(1,2,3) by (simp add: appended_def append_series_def next_series_def)
  from assms(4) [OF this] show ?thesis
    by (simp add: run bindE_def)
qed

lemma seqE_daily:
  assumes "appended ss d A M cur" and "k \<notin> A" and "\<And>prev. day_entry k prev = f"
    and "\<And>cur'. appended ss d (insert k A) M cur' \<Longrightarrow> \<exists>s'. seqE fs cur' = Inr s' \<and> Q s'"
  shows "\<exists>s'. seqE (append_daily k f # fs) cur = Inr s' \<and> Q s'"
proof -
  let ?cur' = "append_series k (f (daily cur)) cur"
  have "appended ss d (insert k A) M ?cur'"
    using assms(1,2) assms(3) [symmetric]
    by (simp add: appended_def append_series_def next_series_def)
  from assms(4) [OF this] show ?thesis
    by (simp add: append_daily_def bindE_def)
qed

lemma seqE_max:
  assumes "appended ss d A M cur" and "k \<in> A" and "m \<notin> M" and "k = max_series m"
    and "\<And>cur'. appended ss d A (insert m M) cur' \<Longrightarrow> \<exists>s'. seqE fs cur' = Inr s' \<and> Q s'"
  shows "\<exists>s'. seqE (update_max m k (int d) # fs) cur = Inr s' \<and> Q s'"
proof -
  let ?cur' = "cur\<lparr>max_day := (max_day cur)
        (m := if series cur k ! Suc d > series cur k ! nat (max_day cur m) then int d + 1
              else max_day cur m)\<rparr>"
  have len: "length (series cur k) = Suc (Suc d)" and len0: "length (series ss k) = Suc d"
    and mx: "0 \<le> max_day cur m" "max_day cur m \<le> int d" and mx0: "max_day cur m = max_day ss m"
    using assms(1,2,3) by (simp_all add: appended_def next_series_def)
  have run: "update_max m k (int d) cur = Inr ?cur'"
    using len mx by (rule update_max_ok)
  have lt: "nat (max_day ss m) < Suc d"
    using mx mx0 by linarith
  have "series cur k ! Suc d = day_entry k (series ss k ! d) (daily ss)"
    "series cur k ! nat (max_day cur m) = series ss k ! nat (max_day ss m)"
    using assms(1,2) len0 lt mx0 by (simp_all add: appended_def nth_append next_series_def)
  then have "appended ss d A (insert m M) ?cur'"
    using assms(1,3,4) by (simp add: appended_def next_max_def)
  from assms(5) [OF this] show ?thesis
    by (simp add: run bindE_def)
qed

lemma appended_all:
  assumes "appended ss d A M cur" and "\<And>k. k \<in> A" and "\<And>m. m \<in> M"
  shows "appended ss d UNIV UNIV cur"
  using assms by (simp add: appended_def)

lemma append_statistics_appended:
  assumes "appended ss d {} {} ss"
  shows "\<exists>ss'. append_statistics (int d) ss = Inr ss' \<and> appended ss d UNIV UNIV ss'"
  using assms unfolding append_statistics_def
  apply (erule_tac seqE_next, simp, (intro ext)+, simp)
  apply (erule_tac seqE_next, simp, (intro ext)+, simp)
  apply (erule_tac seqE_next, simp, (intro ext)+, simp)
  apply (erule_tac seqE_max, simp, simp, simp)
  apply (erule_tac seqE_next, simp, (intro ext)+, simp)
  apply (erule_tac seqE_max, simp, simp, simp)
  apply (erule_tac seqE_next, simp, (intro ext)+, simp)
  apply (erule_tac seqE_max, simp, simp, simp)
  apply (erule_tac seqE_next, simp, (intro ext)+, simp)
  apply (erule_tac seqE_max, simp, simp, simp)
  apply (erule_tac seqE_next, simp, (intro ext)+, simp)
  apply (erule_tac seqE_next, simp, (intro ext)+, simp)
  apply (erule_tac seqE_next, simp, (intro ext)+, simp)
  apply (erule_tac seqE_next, simp, (intro ext)+, simp)
  apply (erule_tac seqE_daily, simp, (intro ext)+, simp)
  apply (erule_tac seqE_max, simp, simp, simp)
  apply (erule_tac seqE_daily, simp, (intro ext)+, simp)
  apply (erule_tac seqE_max, simp, simp, simp)
  apply (erule_tac seqE_daily, simp, (intro ext)+, simp)
  apply (erule_tac seqE_daily, simp, (intro ext)+, simp)
  apply (erule_tac seqE_daily, simp, (intro ext)+, simp)
  apply (erule_tac seqE_daily, simp, (intro ext)+, simp)
  apply simp
  apply (erule appended_all)
  subgoal for cur k by (cases k) simp_all
  subgoal for cur m by (cases m) simp_all
  done

lemma append_statistics_closed:
  assumes "tracked (Suc d) (series ss) (max_day ss)"
  shows "\<exists>ss'. append_statistics (int d) ss = Inr ss'
           \<and> series ss' = next_series d (series ss) (daily ss)
           \<and> max_day ss' = next_max d (series ss) (max_day ss) (daily ss)
           \<and> daily ss' = daily ss"
proof -
  have "max_day ss m \<le> int d" for m
  proof -
    have "max_day ss m < int (Suc d)"
      using assms unfolding tracked_def by blast
    then show ?thesis by linarith
  qed
  then have "appended ss d {} {} ss"
    using assms by (simp add: appended_def tracked_def)
  from append_statistics_appended [OF this] obtain ss'
    where "append_statistics (int d) ss = Inr ss'" and "appended ss d UNIV UNIV ss'"
    by blast
  then show ?thesis
    by (auto simp: appended_def intro!: exI [of _ ss'])
qed

lemma seqE_seed:
  assumes "seeded ss A cur" and "k \<notin> A" and "day_entry k 0 = f"
    and "\<And>cur'. seeded ss (insert k A) cur' \<Longrightarrow> \<exists>s'. seqE fs cur' = Inr s' \<and> Q s'"
  shows "\<exists>s'. seqE (append_daily k f # fs) cur = Inr s' \<and> Q s'"
proof -
  let ?cur' = "append_series k (f (daily cur)) cur"
  have "seeded ss (insert k A) ?cur'"
    using assms(1,2) assms(3) [symmetric] by (simp add: seeded_def append_series_def)
  from assms(4) [OF this] show ?thesis
    by (simp add: append_daily_def bindE_def)
qed

lemma seeded_all:
  assumes "seeded ss A cur" and "\<And>k. k \<in> A"
  shows "seeded ss UNIV cur"
  using assms by (simp add: seeded_def)

lemma append_initial_statistics_seeded:
  "\<exists>ss'. append_initial_statistics ss = Inr ss' \<and> seeded ss UNIV ss'"
proof -
  have "seeded ss {} ss"
    by (simp add: seeded_def)
  then show ?thesis
    unfolding append_initial_statistics_def
    apply (erule_tac seqE_seed, simp, (intro ext)+, simp)
    apply (erule_tac seqE_seed, simp, (intro ext)+, simp)
    apply (erule_tac seqE_seed, simp, (intro ext)+, simp)
    apply (erule_tac seqE_seed, simp, (intro ext)+, simp)
    apply (erule_tac seqE_seed, simp, (intro ext)+, simp)
    apply (erule_tac seqE_seed, simp, (intro ext)+, simp)
    apply (erule_tac seqE_seed, simp, (intro ext)+, simp)
    apply (erule_tac seqE_seed, simp, (intro ext)+, simp)
    apply (erule_tac seqE_seed, simp, (intro ext)+, simp)
    apply (erule_tac seqE_seed, simp, (intro ext)+, simp)
    apply (erule_tac seqE_seed, simp, (intro ext)+, simp)
    apply (erule_tac seqE_seed, simp, (intro ext)+, simp)
    apply (erule_tac seqE_seed, simp, (intro ext)+, simp)
    apply (erule_tac seqE_seed, simp, (intro ext)+, simp)
    apply (erule_tac seqE_seed, simp, (intro ext)+, simp)
    apply (erule_tac seqE_seed, simp, (intro ext)+, simp)
    apply simp
    apply (erule seeded_all)
    subgoal for cur k by (cases k) simp_all
    done
qed

lemma append_initial_statistics_closed:
  assumes "series ss = (\<lambda>k. [])"
  shows "\<exists>ss'. append_initial_statistics ss = Inr ss'
           \<and> series ss' = (\<lambda>k. [day_entry k 0 (daily ss)]) \<and> max_day ss' = max_day ss"
proof -
  from append_initial_statistics_seeded [of ss] obtain ss'
    where "append_initial_statistics ss = Inr ss'" and "seeded ss UNIV ss'"
    by blast
  then show ?thesis
    using assms by (auto simp: seeded_def intro!: exI [of _ ss'])
qed

section \<open>simulate\_v2: the collaborators leave the statistics alone\<close>

lemma keepsD: "keeps f \<Longrightarrow> f ss = Inr ss' \<Longrightarrow> series ss' = series ss \<and> max_day ss' = max_day ss"
  by (simp add: keeps_def)

lemma health_loop_keeps:
  assumes "keeps_statistics cb"
  shows "health_loop cb ref xs i ss = Inr ss' \<Longrightarrow> series ss' = series ss \<and> max_day ss' = max_day ss"
proof (induction i arbitrary: ss)
  case 0
  then show ?case by simp
next
  case (Suc i)
  show ?case
  proof (cases "i < length (xs ss)")
    case True
    with Suc.prems obtain ss1
      where a: "daily_health_evaluation cb (ref i) ss = Inr ss1"
        and b: "health_loop cb ref xs i ss1 = Inr ss'"
      by (auto simp: bindE_Inr)
    have "keeps (daily_health_evaluation cb (ref i))"
      using assms by (simp add: keeps_statistics_def)
    from keepsD [OF this a] Suc.IH [OF b] show ?thesis by simp
  next
    case False
    with Suc.prems show ?thesis by simp
  qed
qed

lemma contacts_loop_keeps_aux:
  assumes "contacts_loop c j s = Some r"
  shows "keeps_statistics c \<longrightarrow>
         (\<forall>s'. r = Inr s' \<longrightarrow> series s' = series s \<and> max_day s' = max_day s)"
proof (rule contacts_loop.raw_induct
    [where P = "\<lambda>c j s r. keeps_statistics c \<longrightarrow>
       (\<forall>s'. r = Inr s' \<longrightarrow> series s' = series s \<and> max_day s' = max_day s)",
     OF _ assms], goal_cases)
  case (1 loop cb i ss r)
  show ?case
  proof (intro impI allI)
    fix ss' assume k: "keeps_statistics cb" and r: "r = Inr ss'"
    show "series ss' = series ss \<and> max_day ss' = max_day ss"
    proof (cases "i < length (people ss)")
      case True
      with 1(2) r obtain ss1
        where a: "daily_evaluate_contacts cb (People_ref i) ss = Inr ss1"
          and b: "loop cb (Suc i) ss1 = Some (Inr ss')"
        by (auto split: sum.splits)
      have "keeps (daily_evaluate_contacts cb (People_ref i))"
        using k by (simp add: keeps_statistics_def)
      from keepsD [OF this a] 1(1) [OF b] k show ?thesis by simp
    next
      case False
      with 1(2) r show ?thesis by simp
    qed
  qed
qed

lemma contacts_loop_keeps:
  assumes "contacts_loop cb i ss = Some (Inr ss')" and "keeps_statistics cb"
  shows "series ss' = series ss \<and> max_day ss' = max_day ss"
  using contacts_loop_keeps_aux [OF assms(1)] assms(2) by blast

lemma seed_infections_keeps_aux:
  assumes "seed_infections c s = Some r"
  shows "keeps_statistics c \<longrightarrow>
         (\<forall>s'. r = Inr s' \<longrightarrow> series s' = series s \<and> max_day s' = max_day s)"
proof (rule seed_infections.raw_induct
    [where P = "\<lambda>c s r. keeps_statistics c \<longrightarrow>
       (\<forall>s'. r = Inr s' \<longrightarrow> series s' = series s \<and> max_day s' = max_day s)",
     OF _ assms], goal_cases)
  case (1 loop cb ss r)
  show ?case
  proof (intro impI allI)
    fix ss' assume k: "keeps_statistics cb" and r: "r = Inr ss'"
    show "series ss' = series ss \<and> max_day ss' = max_day ss"
    proof (cases "real_of_int (initial_infection ss) > daily ss DAILY_CONFIRMED_CASES")
      case True
      with 1(2) r obtain j g ss1
        where a: "set_infected cb (People_ref (nat j)) (ss\<lparr>rng := g\<rparr>) = Inr ss1"
          and b: "loop cb ss1 = Some (Inr ss')"
        by (auto split: sum.splits prod.splits)
      have "keeps (set_infected cb (People_ref (nat j)))"
        using k by (simp add: keeps_statistics_def)
      from keepsD [OF this a] 1(1) [OF b] k show ?thesis by simp
    next
      case False
      with 1(2) r show ?thesis by simp
    qed
  qed
qed

lemma seed_infections_keeps:
  assumes "seed_infections cb ss = Some (Inr ss')" and "keeps_statistics cb"
  shows "series ss' = series ss \<and> max_day ss' = max_day ss"
  using seed_infections_keeps_aux [OF assms(1)] assms(2) by blast

lemma create_person_keeps:
  assumes "create_person cb i ss = Inr ss'"
  shows "series ss' = series ss \<and> max_day ss' = max_day ss
         \<and> simulation_days ss' = simulation_days ss"
  using assms by (auto simp: create_person_def bindE_Inr)

lemma for_each_create_person_keeps:
  "for_each (create_person cb) ids ss = Inr ss' \<Longrightarrow>
   series ss' = series ss \<and> max_day ss' = max_day ss \<and> simulation_days ss' = simulation_days ss"
proof (induction ids arbitrary: ss)
  case Nil
  then show ?case by simp
next
  case (Cons i ids)
  then obtain ss1 where a: "create_person cb i ss = Inr ss1"
    and b: "for_each (create_person cb) ids ss1 = Inr ss'"
    by (auto simp: bindE_Inr)
  from create_person_keeps [OF a] Cons.IH [OF b] show ?case by simp
qed

lemma begin_day_keeps:
  assumes k: "keeps_statistics cb" and run: "begin_day cb day ss = Inr ss'"
  shows "series ss' = series ss \<and> max_day ss' = max_day ss"
proof -
  from run obtain ss1 changed ss2 ss3 ss4
    where 1: "daily_update_state cb day ss = Inr ss1"
      and 2: "daily_phase_evaluation cb day ss1 = Inr (changed, ss2)"
      and 3: "(if changed then
                (case current_testing_probability ss2 of
                   None \<Rightarrow> Inl KeyError
                 | Some p \<Rightarrow> update_testing_rates cb p ss2)
               else Inr ss2) = Inr ss3"
      and 4: "health_loop cb Hospitalized_ref hospitalized_people
                (length (hospitalized_people ss3)) ss3 = Inr ss4"
      and 5: "health_loop cb People_ref people (length (people ss4)) ss4 = Inr ss'"
    by (auto simp: begin_day_def bindE_Inr)
  have s1: "series ss1 = series ss \<and> max_day ss1 = max_day ss"
    using k 1 by (simp add: keeps_statistics_def keeps_def)
  have s2: "series ss2 = series ss1 \<and> max_day ss2 = max_day ss1"
    using k 2 unfolding keeps_statistics_def by blast
  have s3: "series ss3 = series ss2 \<and> max_day ss3 = max_day ss2"
  proof (cases changed)
    case True
    with 3 obtain p where "update_testing_rates cb p ss2 = Inr ss3"
      by (auto split: option.splits)
    moreover have "keeps (update_testing_rates cb p)"
      using k by (simp add: keeps_statistics_def)
    ultimately show ?thesis by (rule keepsD [rotated])
  next
    case False
    with 3 show ?thesis by simp
  qed
  from s1 s2 s3 health_loop_keeps [OF k 4] health_loop_keeps [OF k 5]
  show ?thesis by simp
qed

lemma event_keeps:
  assumes k: "keeps_statistics cb"
    and run: "(case daily_event_evaluation cb of None \<Rightarrow> Inr ss | Some ev \<Rightarrow> ev day ss) = Inr ss'"
  shows "series ss' = series ss \<and> max_day ss' = max_day ss \<and> (daily_event_evaluation cb = None \<longrightarrow> ss' = ss)"
proof (cases "daily_event_evaluation cb")
  case None
  with run show ?thesis by simp
next
  case (Some ev)
  with k have "keeps (ev day)"
    by (simp add: keeps_statistics_def)
  with run Some show ?thesis
    by (simp add: keeps_def)
qed

text \<open>
  What a day does to the statistics: the seeding day turns empty series into one entry
  each; an ordinary day appends the entries of \<^verbatim>\<open>day_entry\<close> for the counters \<^verbatim>\<open>D\<close> that
  the collaborators left, and moves the maxima.
\<close>

lemma run_day_seed:
  assumes k: "keeps_statistics cb" and run: "run_day cb (- 1) ss = Some (Inr ss')"
    and empty: "series ss = (\<lambda>k. [])"
  shows "\<exists>D. series ss' = (\<lambda>k. [day_entry k 0 D]) \<and> max_day ss' = max_day ss"
proof -
  from run obtain ss1 where 1: "seed_infections cb (reset_daily ss) = Some (Inr ss1)"
    and 2: "append_initial_statistics ss1 = Inr ss'"
    by (auto simp: run_day_def bindR_Inr)
  have s1: "series ss1 = series ss \<and> max_day ss1 = max_day ss"
    using seed_infections_keeps [OF 1 k] by (simp add: reset_daily_def)
  with empty have "series ss1 = (\<lambda>k. [])" by simp
  from append_initial_statistics_closed [OF this] 2 s1 show ?thesis
    by auto
qed

lemma run_day_ordinary:
  assumes k: "keeps_statistics cb" and run: "run_day cb (int d) ss = Some (Inr ss')"
    and tr: "tracked (Suc d) (series ss) (max_day ss)"
  shows "\<exists>D. series ss' = next_series d (series ss) D
            \<and> max_day ss' = next_max d (series ss) (max_day ss) D"
proof -
  have "int d \<noteq> - 1" by simp
  with run obtain ss1 ss2 where 1: "begin_day cb (int d) (reset_daily ss) = Inr ss1"
    and 2: "contacts_loop cb 0 ss1 = Some (Inr ss2)"
    and 3: "end_day cb (int d) ss2 = Inr ss'"
    by (auto simp: run_day_def bindR_Inr Let_def)
  from 3 obtain ss3
    where 4: "(case daily_event_evaluation cb of None \<Rightarrow> Inr ss2 | Some ev \<Rightarrow> ev (int d) ss2) = Inr ss3"
      and 5: "append_statistics (int d) ss3 = Inr ss'"
    by (auto simp: end_day_def bindE_Inr)
  have same: "series ss3 = series ss \<and> max_day ss3 = max_day ss"
    using begin_day_keeps [OF k 1] contacts_loop_keeps [OF 2 k] event_keeps [OF k 4]
    by (simp add: reset_daily_def)
  with tr have "tracked (Suc d) (series ss3) (max_day ss3)" by simp
  from append_statistics_closed [OF this] 5 same show ?thesis
    by auto
qed

lemma tracked_next:
  assumes "tracked (Suc d) S M"
  shows "tracked (Suc (Suc d)) (next_series d S D) (next_max d S M D)"
proof -
  have "0 \<le> next_max d S M D m \<and> next_max d S M D m < int (Suc (Suc d))" for m
  proof -
    have "0 \<le> M m \<and> M m < int (Suc d)"
      using assms unfolding tracked_def by blast
    then show ?thesis
      by (simp add: next_max_def)
  qed
  moreover have "length (next_series d S D k) = Suc (Suc d)" for k
    using assms by (simp add: tracked_def next_series_def)
  ultimately show ?thesis
    unfolding tracked_def by blast
qed

text \<open>
  Induction over the days of a run: a property of the series and the maxima that holds of
  the seeded initial condition and is kept by every ordinary day holds when the run returns.
\<close>

lemma run_days_induct:
  assumes k: "keeps_statistics cb"
    and step: "\<And>d S M D. P d S M \<Longrightarrow> tracked (Suc d) S M \<Longrightarrow>
                 P (Suc d) (next_series d S D) (next_max d S M D)"
  shows "run_days cb (map int [d..<n]) ss = Some (Inr ss') \<Longrightarrow> d \<le> n \<Longrightarrow>
         P d (series ss) (max_day ss) \<Longrightarrow> tracked (Suc d) (series ss) (max_day ss) \<Longrightarrow>
         P n (series ss') (max_day ss') \<and> tracked (Suc n) (series ss') (max_day ss')"
proof (induction "n - d" arbitrary: d ss)
  case 0
  then show ?case by simp
next
  case (Suc x)
  then have lt: "d < n" by simp
  then have "map int [d..<n] = int d # map int [Suc d..<n]"
    by (simp add: upt_conv_Cons)
  with Suc.prems(1) obtain ss1 where 1: "run_day cb (int d) ss = Some (Inr ss1)"
    and 2: "run_days cb (map int [Suc d..<n]) ss1 = Some (Inr ss')"
    by (auto simp: bindR_Inr)
  from run_day_ordinary [OF k 1 Suc.prems(4)] obtain D
    where s: "series ss1 = next_series d (series ss) D"
      and m: "max_day ss1 = next_max d (series ss) (max_day ss) D"
    by blast
  have P1: "P (Suc d) (series ss1) (max_day ss1)"
    using step [OF Suc.prems(3,4)] s m by simp
  have T1: "tracked (Suc (Suc d)) (series ss1) (max_day ss1)"
    using tracked_next [OF Suc.prems(4)] s m by simp
  have "x = n - Suc d" using Suc.hyps(2) by simp
  from Suc.hyps(1) [OF this 2 _ P1 T1] lt show ?case by simp
qed

lemma days_range: "0 \<le> n \<Longrightarrow> [-1..n - 1] = (- 1) # map int [0..<nat n]"
proof -
  assume n: "0 \<le> n"
  have "[0..int m - 1] = map int [0..<m]" for m
  proof (induction m)
    case 0
    then show ?case by simp
  next
    case (Suc m)
    have "[0..int (Suc m) - 1] = [0..int m - 1] @ [int m]"
      using upto_rec2 [of 0 "int m"] by simp
    with Suc show ?case by simp
  qed
  from this [of "nat n"] n have "[0..n - 1] = map int [0..<nat n]" by simp
  moreover have "[-1..n - 1] = (- 1) # [0..n - 1]"
    using n by (simp add: upto_rec1)
  ultimately show ?thesis by simp
qed

lemma run_simulation_induct:
  assumes k: "keeps_statistics cb"
    and run: "run_simulation cb (create_initial_state phs n pop infection g z) = Some (Inr ss')"
    and n: "0 \<le> n"
    and base: "\<And>D. P 0 (\<lambda>k. [day_entry k 0 D]) (\<lambda>m. 0)"
    and step: "\<And>d S M D. P d S M \<Longrightarrow> tracked (Suc d) S M \<Longrightarrow>
                 P (Suc d) (next_series d S D) (next_max d S M D)"
  shows "P (nat n) (series ss') (max_day ss') \<and> tracked (Suc (nat n)) (series ss') (max_day ss')"
proof -
  let ?ss0 = "create_initial_state phs n pop infection g z"
  from run obtain ss1 where 1: "for_each (create_person cb) [0..population ?ss0 - 1] ?ss0 = Inr ss1"
    and 2: "run_days cb [-1..simulation_days ss1 - 1] (ss1\<lparr>daily_population := population ss1\<rparr>)
              = Some (Inr ss')"
    by (auto simp: run_simulation_def bindR_Inr)
  have s1: "series ss1 = (\<lambda>k. [])" "max_day ss1 = (\<lambda>m. 0)" "simulation_days ss1 = n"
    using for_each_create_person_keeps [OF 1] by (simp_all add: create_initial_state_def)
  let ?ss1 = "ss1\<lparr>daily_population := population ss1\<rparr>"
  have "[-1..simulation_days ss1 - 1] = (- 1) # map int [0..<nat n]"
    using days_range [OF n] s1 by simp
  with 2 obtain ss2 where 3: "run_day cb (- 1) ?ss1 = Some (Inr ss2)"
    and 4: "run_days cb (map int [0..<nat n]) ss2 = Some (Inr ss')"
    by (auto simp: bindR_Inr)
  from run_day_seed [OF k 3] s1 obtain D
    where s2: "series ss2 = (\<lambda>k. [day_entry k 0 D])" "max_day ss2 = (\<lambda>m. 0)"
    by auto
  have P0: "P 0 (series ss2) (max_day ss2)"
    using base [of D] s2 by simp
  have T0: "tracked (Suc 0) (series ss2) (max_day ss2)"
    using s2 by (simp add: tracked_def)
  from run_days_induct [of cb P, OF k step 4 _ P0 T0] show ?thesis
    by simp
qed

section \<open>simulate\_v2: the seeding loop with the setter of the spec\<close>

lemma keeps_statistics_test_callbacks: "keeps_statistics (test_callbacks p)"
  by (auto simp: keeps_statistics_def keeps_def test_callbacks_def spec_set_infected_def
      split: person_ref.splits if_splits)

lemma seed_done:
  assumes "\<not> daily ss DAILY_CONFIRMED_CASES < real_of_int (initial_infection ss)"
  shows "seed_infections cb ss = Some (Inr ss)"
  using assms by (subst seed_infections.simps) simp

lemma seed_once:
  assumes "set_infected cb = spec_set_infected p"
    and "daily ss DAILY_CONFIRMED_CASES < real_of_int (initial_infection ss)"
    and "0 < population ss" and "length (people ss) = nat (population ss)"
  shows "\<exists>j. j < length (people ss) \<and>
     seed_infections cb ss =
     seed_infections cb
       (ss\<lparr> rng := stl (rng ss),
             people := (people ss)[j := (people ss ! j)(''state'' \<mapsto> PStr ''contagious'')],
             daily := (daily ss)
               (DAILY_CASES := daily ss DAILY_CASES + 1,
                DAILY_CONFIRMED_CASES := p * (daily ss DAILY_CASES + 1)) \<rparr>)"
proof -
  let ?j = "int (shd (rng ss)) mod population ss"
  have j: "0 \<le> ?j" "?j < population ss"
    using assms(3) by simp_all
  then have lt: "nat ?j < length (people ss)"
    using assms(4) by linarith
  have idx: "py_index (people ss) ?j = Inr (people ss ! nat ?j)"
    using j assms(4) by (simp add: py_index_def)
  have rnd: "random_randint 0 (population ss - 1) (rng ss) = Inr (?j, stl (rng ss))"
    using assms(3) by (simp add: random_randint_def)
  show ?thesis
    apply (rule exI [of _ "nat ?j"])
    apply (subst seed_infections.simps)
    using assms(1,2) lt
    apply (simp add: rnd idx spec_set_infected_def)
    done
qed

text \<open>
  With a testing probability \<^verbatim>\<open>p > 0\<close> the loop returns after as many calls of the setter
  as it takes for \<^verbatim>\<open>p\<close> times the number of calls to reach the configured count.
\<close>

lemma seed_infections_returns:
  assumes cb: "set_infected cb = spec_set_infected p" and p: "0 < p"
  shows "0 < population ss \<Longrightarrow> length (people ss) = nat (population ss) \<Longrightarrow>
     daily ss DAILY_CASES = real c \<Longrightarrow> daily ss DAILY_CONFIRMED_CASES = p * real c \<Longrightarrow>
     int c \<le> \<lceil>real_of_int (initial_infection ss) / p\<rceil> \<Longrightarrow>
     \<exists>ss'. seed_infections cb ss = Some (Inr ss')
       \<and> daily ss' DAILY_CASES = real_of_int \<lceil>real_of_int (initial_infection ss) / p\<rceil>
       \<and> daily ss' DAILY_CONFIRMED_CASES = p * daily ss' DAILY_CASES
       \<and> length (people ss') = length (people ss)
       \<and> series ss' = series ss \<and> max_day ss' = max_day ss
       \<and> initial_infection ss' = initial_infection ss"
proof (induction "nat \<lceil>real_of_int (initial_infection ss) / p\<rceil> - c" arbitrary: ss c)
  case 0
  let ?I = "real_of_int (initial_infection ss)"
  from "0.hyps" "0.prems"(5) have eq: "int c = \<lceil>?I / p\<rceil>" by linarith
  have "?I / p \<le> real c"
    using eq by (metis le_of_int_ceiling of_int_of_nat_eq)
  then have "?I \<le> p * real c"
    using p by (simp add: pos_divide_le_eq mult.commute)
  then have "seed_infections cb ss = Some (Inr ss)"
    using "0.prems"(4) by (intro seed_done) simp
  moreover have "daily ss DAILY_CASES = real_of_int \<lceil>?I / p\<rceil>"
    using "0.prems"(3) eq by (metis of_int_of_nat_eq)
  ultimately show ?case
    using "0.prems"(3,4) by simp
next
  case (Suc x)
  let ?I = "real_of_int (initial_infection ss)"
  from Suc.hyps(2) have lt: "int c < \<lceil>?I / p\<rceil>" by linarith
  then have "real c < ?I / p"
    by (metis less_ceiling_iff of_int_of_nat_eq)
  then have below: "daily ss DAILY_CONFIRMED_CASES < ?I"
    using p Suc.prems(4) by (simp add: pos_less_divide_eq mult.commute)
  from seed_once [OF cb below Suc.prems(1,2)] obtain j where j: "j < length (people ss)"
    and unfold: "seed_infections cb ss = seed_infections cb
       (ss\<lparr> rng := stl (rng ss),
             people := (people ss)[j := (people ss ! j)(''state'' \<mapsto> PStr ''contagious'')],
             daily := (daily ss)
               (DAILY_CASES := daily ss DAILY_CASES + 1,
                DAILY_CONFIRMED_CASES := p * (daily ss DAILY_CASES + 1)) \<rparr>)"
      (is "_ = seed_infections cb ?ss1")
    by blast
  have "x = nat \<lceil>real_of_int (initial_infection ?ss1) / p\<rceil> - Suc c"
    using Suc.hyps(2) by simp
  moreover have "0 < population ?ss1" "length (people ?ss1) = nat (population ?ss1)"
    using Suc.prems(1,2) by simp_all
  moreover have "daily ?ss1 DAILY_CASES = real (Suc c)"
    "daily ?ss1 DAILY_CONFIRMED_CASES = p * real (Suc c)"
    using Suc.prems(3) by simp_all
  moreover have "int (Suc c) \<le> \<lceil>real_of_int (initial_infection ?ss1) / p\<rceil>"
    using lt by simp
  ultimately obtain ss' where "seed_infections cb ?ss1 = Some (Inr ss')"
    "daily ss' DAILY_CASES = real_of_int \<lceil>real_of_int (initial_infection ?ss1) / p\<rceil>"
    "daily ss' DAILY_CONFIRMED_CASES = p * daily ss' DAILY_CASES"
    "length (people ss') = length (people ?ss1)"
    "series ss' = series ?ss1" "max_day ss' = max_day ?ss1"
    "initial_infection ss' = initial_infection ?ss1"
    using Suc.hyps(1) [of ?ss1 "Suc c"] by blast
  then show ?case
    using unfold by simp
qed

section \<open>simulate\_v2: runs with the test collaborators return\<close>

lemma health_loop_test: "health_loop (test_callbacks p) ref xs i ss = Inr ss"
  by (induction i) (simp_all add: test_callbacks_def bindE_def)

lemma contacts_loop_test:
  "\<exists>ss'. contacts_loop (test_callbacks p) i ss = Some (Inr ss')"
proof (induction "length (people ss) - i" arbitrary: i ss)
  case 0
  then show ?case
    by (subst contacts_loop.simps) simp
next
  case (Suc x)
  let ?ss1 = "ss\<lparr>daily := (daily ss)
           (DAILY_CASES := daily ss DAILY_CASES + 1,
            DAILY_CONFIRMED_CASES := p * (daily ss DAILY_CASES + 1))\<rparr>"
  have "x = length (people ?ss1) - Suc i"
    using Suc.hyps(2) by simp
  from Suc.hyps(1) [OF this] obtain ss' where "contacts_loop (test_callbacks p) (Suc i) ?ss1 = Some (Inr ss')"
    by blast
  moreover have "i < length (people ss)"
    using Suc.hyps(2) by simp
  ultimately show ?case
    by (subst contacts_loop.simps) (simp add: test_callbacks_def)
qed

lemma begin_day_test:
  assumes "tracked (Suc d) (series ss) (max_day ss)"
  shows "begin_day (test_callbacks p) (int d) ss = Inr ss"
proof -
  have "series_at ss k (int d) = Inr (series ss k ! d)" for k
    using assms by (simp add: series_at_def py_index_nat tracked_def)
  then show ?thesis
    by (simp add: begin_day_def bindE_def health_loop_test) (simp add: test_callbacks_def)
qed

lemma run_day_test:
  assumes "tracked (Suc d) (series ss) (max_day ss)"
  shows "\<exists>ss'. run_day (test_callbacks p) (int d) ss = Some (Inr ss')"
proof -
  let ?cb = "test_callbacks p :: 'a callbacks"
  have tr: "tracked (Suc d) (series (reset_daily ss)) (max_day (reset_daily ss))"
    using assms by (simp add: reset_daily_def)
  obtain ss2 where 2: "contacts_loop ?cb 0 (reset_daily ss) = Some (Inr ss2)"
    using contacts_loop_test by blast
  have "tracked (Suc d) (series ss2) (max_day ss2)"
    using contacts_loop_keeps [OF 2 keeps_statistics_test_callbacks] tr by simp
  from append_statistics_closed [OF this] obtain ss'
    where 3: "append_statistics (int d) ss2 = Inr ss'" by blast
  have "end_day ?cb (int d) ss2 = Inr ss'"
    using 3 by (simp add: end_day_def bindE_def test_callbacks_def)
  then have "run_day ?cb (int d) ss = Some (Inr ss')"
    using 2 by (simp add: run_day_def Let_def bindR_def begin_day_test [OF tr])
  then show ?thesis by blast
qed

lemma run_days_test:
  "tracked (Suc d) (series ss) (max_day ss) \<Longrightarrow>
   \<exists>ss'. run_days (test_callbacks p) (map int [d..<n]) ss = Some (Inr ss')"
proof (induction "n - d" arbitrary: d ss)
  case 0
  then show ?case by simp
next
  case (Suc x)
  then have lt: "d < n" by simp
  then have split: "map int [d..<n] = int d # map int [Suc d..<n]"
    by (simp add: upt_conv_Cons)
  from run_day_test [OF Suc.prems] obtain ss1
    where 1: "run_day (test_callbacks p) (int d) ss = Some (Inr ss1)" by blast
  from run_day_ordinary [OF keeps_statistics_test_callbacks 1 Suc.prems] tracked_next [OF Suc.prems]
  have T1: "tracked (Suc (Suc d)) (series ss1) (max_day ss1)" by auto
  have "x = n - Suc d" using Suc.hyps(2) by simp
  from Suc.hyps(1) [OF this T1] obtain ss'
    where "run_days (test_callbacks p) (map int [Suc d..<n]) ss1 = Some (Inr ss')" by blast
  with 1 split show ?case
    by (simp add: bindR_def)
qed

lemma for_each_create_person_test:
  "\<exists>ss'. for_each (create_person (test_callbacks p)) ids ss = Inr ss'
     \<and> length (people ss') = length (people ss) + length ids
     \<and> population ss' = population ss \<and> initial_infection ss' = initial_infection ss"
proof (induction ids arbitrary: ss)
  case Nil
  then show ?case by simp
next
  case (Cons i ids)
  let ?ss1 = "ss\<lparr>people := people ss @ [[''id'' \<mapsto> PInt i, ''state'' \<mapsto> PStr ''well'']]\<rparr>"
  have 1: "create_person (test_callbacks p) i ss = Inr ?ss1"
    by (simp add: create_person_def test_callbacks_def bindE_def)
  from Cons [of ?ss1] 1 show ?case
    by (auto simp: bindE_def)
qed

text \<open>
  With the test collaborators, a positive testing probability and a population that is not
  empty, the run returns a state.
\<close>

lemma test_run_returns:
  assumes p: "0 < p" and pop: "0 < pop" and n: "0 \<le> n" and inf: "0 \<le> infection"
  shows "\<exists>ss'. run_simulation (test_callbacks p) (create_initial_state phs n pop infection g z)
           = Some (Inr ss')"
proof -
  let ?cb = "test_callbacks p :: 'a callbacks"
  let ?ss0 = "create_initial_state phs n pop infection g z"
  from for_each_create_person_test [of p "[0..population ?ss0 - 1]" ?ss0]
  obtain ss1 where 1: "for_each (create_person ?cb) [0..population ?ss0 - 1] ?ss0 = Inr ss1"
    and len: "length (people ss1) = length (people ?ss0) + length [0..population ?ss0 - 1]"
    and same: "population ss1 = population ?ss0"
    by blast
  have s1: "series ss1 = (\<lambda>k. [])" "max_day ss1 = (\<lambda>m. 0)" "simulation_days ss1 = n"
    using for_each_create_person_keeps [OF 1] by (simp_all add: create_initial_state_def)
  have pop1: "population ss1 = pop" "length (people ss1) = nat pop"
    using len same pop by (simp_all add: create_initial_state_def)
  let ?s = "reset_daily (ss1\<lparr>daily_population := population ss1\<rparr>)"
  have "set_infected ?cb = spec_set_infected p"
    by (simp add: test_callbacks_def)
  moreover have "0 < population ?s" "length (people ?s) = nat (population ?s)"
    "daily ?s DAILY_CASES = real 0" "daily ?s DAILY_CONFIRMED_CASES = p * real 0"
    using pop1 pop by (simp_all add: reset_daily_def)
  moreover have "int 0 \<le> \<lceil>real_of_int (initial_infection ?s) / p\<rceil>"
  proof -
    have "initial_infection ?s = infection"
      using for_each_create_person_test [of p "[0..population ?ss0 - 1]" ?ss0] 1
      by (auto simp: reset_daily_def create_initial_state_def)
    moreover have "0 \<le> real_of_int infection / p"
      using inf p by simp
    then have "0 \<le> \<lceil>real_of_int infection / p\<rceil>"
      by linarith
    ultimately show ?thesis by simp
  qed
  ultimately obtain ss2
    where 2: "seed_infections ?cb ?s = Some (Inr ss2)"
      and s2: "series ss2 = series ?s" "max_day ss2 = max_day ?s"
    using seed_infections_returns [OF _ p, of ?cb ?s 0] by blast
  have "series ss2 = (\<lambda>k. [])"
    using s1 s2 by (simp add: reset_daily_def)
  from append_initial_statistics_closed [OF this] obtain ss3
    where 3: "append_initial_statistics ss2 = Inr ss3"
      and s3: "series ss3 = (\<lambda>k. [day_entry k 0 (daily ss2)])" "max_day ss3 = max_day ss2"
    by blast
  have day0: "run_day ?cb (- 1) (ss1\<lparr>daily_population := population ss1\<rparr>) = Some (Inr ss3)"
    using 2 3 by (simp add: run_day_def Let_def bindR_def)
  have "tracked (Suc 0) (series ss3) (max_day ss3)"
    using s1 s2 s3 by (simp add: tracked_def reset_daily_def)
  from run_days_test [OF this, of p "nat n"] obtain ss'
    where 4: "run_days ?cb (map int [0..<nat n]) ss3 = Some (Inr ss')" by blast
  have "[-1..simulation_days ss1 - 1] = (- 1) # map int [0..<nat n]"
    using days_range [OF n] s1 by simp
  then have "run_simulation ?cb ?ss0 = Some (Inr ss')"
    using 1 day0 4 by (simp add: run_simulation_def bindR_def)
  then show ?thesis by blast
qed

section \<open>simulate\_v2: the series of a run\<close>

lemma history_next:
  assumes h: "history d S Ds" and t: "tracked (Suc d) S M"
  shows "history (Suc d) (next_series d S D) (Ds @ [D])"
proof -
  have len: "length (S k) = Suc d" for k
    using t by (simp add: tracked_def)
  have lenD: "length Ds = Suc d"
    using h by (simp add: history_def)
  have old: "next_series d S D k ! j = S k ! j" if "j \<le> d" for k j
    using that len [of k] by (simp add: next_series_def nth_append)
  have new: "next_series d S D k ! Suc d = day_entry k (S k ! d) D" for k
    using len [of k] by (simp add: next_series_def nth_append)
  have oldD: "(Ds @ [D]) ! j = Ds ! j" if "j \<le> d" for j
    using that lenD by (simp add: nth_append)
  have newD: "(Ds @ [D]) ! Suc d = D"
    using lenD by (simp add: nth_append)
  have "next_series d S D k ! Suc j = day_entry k (next_series d S D k ! j) ((Ds @ [D]) ! Suc j)"
    if "j < Suc d" for j k
  proof (cases "j = d")
    case True
    then show ?thesis by (simp add: old new newD)
  next
    case False
    with that have "j < d" by simp
    with h show ?thesis
      by (simp add: old oldD history_def)
  qed
  moreover have "next_series d S D k ! 0 = day_entry k 0 ((Ds @ [D]) ! 0)" for k
    using h by (simp add: old oldD history_def)
  ultimately show ?thesis
    using lenD by (simp add: history_def)
qed

lemma run_simulation_history:
  assumes "keeps_statistics cb"
    and "run_simulation cb (create_initial_state phs n pop infection g z) = Some (Inr ss')"
    and "0 \<le> n"
  shows "(\<exists>Ds. history (nat n) (series ss') Ds)
         \<and> tracked (Suc (nat n)) (series ss') (max_day ss')"
proof (rule run_simulation_induct [where P = "\<lambda>d S M. \<exists>Ds. history d S Ds", OF assms])
  show "\<exists>Ds. history 0 (\<lambda>k. [day_entry k 0 D]) Ds" for D
    by (rule exI [of _ "[D]"]) (simp add: history_def)
  show "\<exists>Ds. history (Suc d) (next_series d S D) Ds"
    if "\<exists>Ds. history d S Ds" and "tracked (Suc d) S M" for d S M D
    using that history_next by blast
qed

lemma running_max_next:
  assumes r: "running_max xs m" and len: "length xs = Suc d"
  shows "running_max (xs @ [v]) (if v > xs ! nat m then int d + 1 else m)"
proof (cases "v > xs ! nat m")
  case True
  have lt: "(xs @ [v]) ! j < v" if "j < Suc d" for j
  proof -
    have "xs ! j \<le> xs ! nat m"
      using r that len by (simp add: running_max_def)
    with True that len show ?thesis
      by (simp add: nth_append)
  qed
  have last: "(xs @ [v]) ! Suc d = v"
    using len by (simp add: nth_append)
  have "(xs @ [v]) ! j \<le> v" if "j < Suc (Suc d)" for j
  proof (cases "j = Suc d")
    case True
    then show ?thesis by (simp add: last)
  next
    case False
    with that have "j < Suc d" by simp
    from lt [OF this] show ?thesis by simp
  qed
  moreover have "nat (int d + 1) = Suc d" by simp
  ultimately show ?thesis
    using True len lt last by (simp add: running_max_def)
next
  case False
  have m: "nat m < Suc d" "0 \<le> m"
    using r len by (simp_all add: running_max_def)
  have "(xs @ [v]) ! j \<le> (xs @ [v]) ! nat m" if "j < Suc (Suc d)" for j
  proof (cases "j = Suc d")
    case True
    with False m len show ?thesis by (simp add: nth_append)
  next
    case False
    with that have "j < Suc d" by simp
    with r m len show ?thesis by (simp add: nth_append running_max_def)
  qed
  moreover have "(xs @ [v]) ! j < (xs @ [v]) ! nat m" if "j < nat m" for j
    using that r m len by (simp add: nth_append running_max_def)
  ultimately show ?thesis
    using False m len by (simp add: running_max_def)
qed

lemma run_simulation_maxima:
  assumes "keeps_statistics cb"
    and "run_simulation cb (create_initial_state phs n pop infection g z) = Some (Inr ss')"
    and "0 \<le> n"
  shows "(\<forall>m. running_max (series ss' (max_series m)) (max_day ss' m))
         \<and> tracked (Suc (nat n)) (series ss') (max_day ss')"
proof (rule run_simulation_induct
    [where P = "\<lambda>d S M. \<forall>m. running_max (S (max_series m)) (M m)", OF assms])
  show "\<forall>m. running_max [day_entry (max_series m) 0 D] 0" for D
    by (simp add: running_max_def)
  show "\<forall>m. running_max (next_series d S D (max_series m)) (next_max d S M D m)"
    if "\<forall>m. running_max (S (max_series m)) (M m)" and "tracked (Suc d) S M" for d S M D
  proof
    fix m
    have "running_max (S (max_series m)) (M m)" "length (S (max_series m)) = Suc d"
      using that by (simp_all add: tracked_def)
    from running_max_next [OF this] show "running_max (next_series d S D (max_series m)) (next_max d S M D m)"
      by (simp add: next_series_def next_max_def)
  qed
qed

section \<open>exercise\_2: the passes over the people\<close>

lemma returns_simps [simp]:
  "returns (Inl e) Q" "returns (Inr x) Q \<longleftrightarrow> Q x" "returns r (\<lambda>x. True)"
  by (simp_all add: returns_def split: sum.splits)

lemma returnsD: "returns r Q \<Longrightarrow> r = Inr x \<Longrightarrow> Q x"
  by (simp add: returns_def)

lemma returns_case_sum:
  "returns (case r of Inl e \<Rightarrow> Inl e | Inr x \<Rightarrow> f x) Q \<longleftrightarrow> returns r (\<lambda>x. returns (f x) Q)"
  by (cases r) simp_all

lemma returns_bindE: "returns (bindE r f) Q \<longleftrightarrow> returns r (\<lambda>x. returns (f x) Q)"
  by (cases r) (simp_all add: bindE_def)

lemma returns_mono: "returns r P \<Longrightarrow> (\<And>x. P x \<Longrightarrow> Q x) \<Longrightarrow> returns r Q"
  by (cases r) simp_all

lemma contact_frame_refl [simp]: "contact_frame st st"
  by (simp add: contact_frame_def)

lemma contact_frame_trans: "contact_frame a b \<Longrightarrow> contact_frame b c \<Longrightarrow> contact_frame a c"
  by (simp add: contact_frame_def)

lemma contact_frame_generator [simp]:
  "contact_frame (st\<lparr>generator := g\<rparr>) st' \<longleftrightarrow> contact_frame st st'"
  by (simp add: contact_frame_def recorded_def)

lemma random_randint_0:
  "random_randint 0 (n - 1) g =
     (if n \<le> 0 then Inl ValueError else Inr (int (shd g) mod n, stl g))"
  by (simp add: random_randint_def)

lemma look_for_infectious_Suc:
  "look_for_infectious cfg (Suc n) i st =
     (if current_population st \<le> 0 then Inl ValueError
      else case py_index (people_list st) (int (shd (generator st)) mod current_population st) of
        Inl e \<Rightarrow> Inl e
      | Inr contact \<Rightarrow>
          if state contact = Contagious then
            if fst (random_random (stl (generator st))) < cfg_transmission_probability cfg then
              Inr (st\<lparr> people_list := (people_list st)
                         [i := (people_list st ! i)\<lparr>state := Infected, days := 1\<rparr>],
                       new_cases := new_cases st + 1,
                       generator := stl (stl (generator st)) \<rparr>)
            else look_for_infectious cfg n i (st\<lparr>generator := stl (stl (generator st))\<rparr>)
          else look_for_infectious cfg n i (st\<lparr>generator := stl (generator st)\<rparr>))"
  by (simp add: random_randint_0 bindE_def random_random_def split: sum.splits)

lemma look_for_susceptible_Suc:
  "look_for_susceptible cfg (Suc n) st =
     (if current_population st \<le> 0 then Inl ValueError
      else case py_index (people_list st) (int (shd (generator st)) mod current_population st) of
        Inl e \<Rightarrow> Inl e
      | Inr contact \<Rightarrow>
          if can_be_infected (cfg_health_states cfg (state contact)) then
            if fst (random_random (stl (generator st))) < cfg_transmission_probability cfg then
              look_for_susceptible cfg n
                (st\<lparr> people_list := (people_list st)
                       [nat (int (shd (generator st)) mod current_population st) :=
                          contact\<lparr>state := Infected, days := 1\<rparr>],
                     new_cases := new_cases st + 1,
                     generator := stl (stl (generator st)) \<rparr>)
            else look_for_susceptible cfg n (st\<lparr>generator := stl (stl (generator st))\<rparr>)
          else look_for_susceptible cfg n (st\<lparr>generator := stl (generator st)\<rparr>))"
  by (simp add: random_randint_0 bindE_def random_random_def split: sum.splits)


lemma look_for_infectious_returns:
  "returns (look_for_infectious cfg n i st) (contact_frame st)"
proof (induction n arbitrary: st)
  case 0
  then show ?case by simp
next
  case (Suc n)
  have hit: "contact_frame st (st\<lparr> people_list := (people_list st)
                         [i := (people_list st ! i)\<lparr>state := Infected, days := 1\<rparr>],
                       new_cases := new_cases st + 1,
                       generator := g \<rparr>)" for g
    by (simp add: contact_frame_def recorded_def)
  have go: "returns (look_for_infectious cfg n i (st\<lparr>generator := g\<rparr>)) (contact_frame st)" for g
    using Suc.IH [of "st\<lparr>generator := g\<rparr>"] by simp
  show ?case
    unfolding look_for_infectious_Suc
    by (simp add: returns_case_sum hit go split: sum.splits)
qed

lemma look_for_susceptible_returns:
  "returns (look_for_susceptible cfg n st) (contact_frame st)"
proof (induction n arbitrary: st)
  case 0
  then show ?case by simp
next
  case (Suc n)
  have hit: "returns (look_for_susceptible cfg n
                (st\<lparr> people_list := (people_list st)[j := c],
                     new_cases := new_cases st + 1, generator := g \<rparr>)) (contact_frame st)" for j c g
  proof (rule returns_mono [OF Suc.IH])
    fix st' assume "contact_frame (st\<lparr> people_list := (people_list st)[j := c],
                     new_cases := new_cases st + 1, generator := g \<rparr>) st'"
    then show "contact_frame st st'"
      by (simp add: contact_frame_def recorded_def)
  qed
  have go: "returns (look_for_susceptible cfg n (st\<lparr>generator := g\<rparr>)) (contact_frame st)" for g
    using Suc.IH [of "st\<lparr>generator := g\<rparr>"] by simp
  show ?case
    unfolding look_for_susceptible_Suc
    by (simp add: returns_case_sum hit go split: sum.splits)
qed

lemma evaluate_person_returns: "returns (evaluate_person cfg i st) (contact_frame st)"
  by (simp add: evaluate_person_def Let_def look_for_infectious_returns look_for_susceptible_returns)

termination contact_pass
proof (relation "measure (\<lambda>(cfg, i, st). length (people_list st) - i)", goal_cases)
  case 1
  then show ?case by simp
next
  case (2 cfg i st st')
  from returnsD [OF evaluate_person_returns 2(2)] 2(1) show ?case
    by (simp add: contact_frame_def)
qed

lemma contact_pass_returns: "returns (contact_pass cfg i st) (contact_frame st)"
proof (induction cfg i st rule: contact_pass.induct)
  case (1 cfg i st)
  show ?case
  proof (cases "i < length (people_list st)")
    case True
    have "returns (evaluate_person cfg i st)
            (\<lambda>st1. returns (contact_pass cfg (Suc i) st1) (contact_frame st))"
    proof (cases "evaluate_person cfg i st")
      case (Inl e)
      then show ?thesis by simp
    next
      case (Inr st1)
      from returnsD [OF evaluate_person_returns Inr] have f: "contact_frame st st1" .
      have "returns (contact_pass cfg (Suc i) st1) (contact_frame st)"
        by (rule returns_mono [OF "1.IH" [OF True Inr]]) (rule contact_frame_trans [OF f])
      with Inr show ?thesis by simp
    qed
    with True show ?thesis
      by (subst contact_pass.simps) (simp add: returns_case_sum)
  next
    case False
    then show ?thesis by (subst contact_pass.simps) simp
  qed
qed

lemma random_random_split: "random_random g = (fst (random_random g), stl g)"
  by (simp add: random_random_def)

lemma update_health_unfold:
  "update_health cfg i st =
     (let p = (people_list st ! i)\<lparr>days := days (people_list st ! i) + 1\<rparr>;
          hs = cfg_health_states cfg (state (people_list st ! i));
          st1 = st\<lparr>people_list := (people_list st)[i := p]\<rparr>
      in if 0 < days_at_state hs \<and> days_at_state hs < days p then
           (case death_rate hs of
              None \<Rightarrow> Inl KeyError
            | Some rate \<Rightarrow>
                if rate > 0 \<and> fst (random_random (generator st)) < rate then
                  Inr (st1\<lparr> people_list := remove1 p (people_list st1),
                            new_deaths := new_deaths st + 1,
                            current_population := current_population st - 1,
                            generator := stl (generator st) \<rparr>)
                else
                  (case next_state hs of
                     None \<Rightarrow> Inl KeyError
                   | Some next \<Rightarrow>
                       Inr (st1\<lparr> people_list := (people_list st1)[i := p\<lparr>state := next, days := 1\<rparr>],
                                 new_recoveries :=
                                   (if next = Immune then new_recoveries st + 1 else new_recoveries st),
                                 generator :=
                                   (if rate > 0 then stl (generator st) else generator st) \<rparr>)))
         else Inr st1)"
  unfolding update_health_def Let_def
  by (subst random_random_split) (simp add: bindE_def item_def split: option.splits)



lemma update_health_returns:
  "returns (update_health cfg i st)
     (\<lambda>st'. length (people_list st') \<le> length (people_list st) \<and> recorded st' = recorded st
        \<and> new_cases st' = new_cases st)"
  unfolding update_health_unfold Let_def
  by (simp add: recorded_def length_remove1 split: option.splits)

lemma health_pass_returns:
  "returns (health_pass cfg i st) (\<lambda>st'. recorded st' = recorded st \<and> new_cases st' = new_cases st)"
proof (induction i arbitrary: st)
  case 0
  then show ?case by simp
next
  case (Suc i)
  have "returns (update_health cfg i st)
     (\<lambda>st1. returns (health_pass cfg i st1)
        (\<lambda>st'. recorded st' = recorded st \<and> new_cases st' = new_cases st))"
  proof (rule returns_mono [OF update_health_returns])
    fix st1 assume "length (people_list st1) \<le> length (people_list st) \<and> recorded st1 = recorded st
        \<and> new_cases st1 = new_cases st"
    then show "returns (health_pass cfg i st1)
        (\<lambda>st'. recorded st' = recorded st \<and> new_cases st' = new_cases st)"
      using Suc.IH [of st1] by simp
  qed
  then show ?case
    by (simp add: returns_bindE)
qed

section \<open>exercise\_2: the statistics of a day\<close>

lemma append_day_closed:
  assumes "length (cumulative_cases st) = Suc d" "length (active_cases st) = Suc d"
    "length (cumulative_recoveries st) = Suc d" "length (cumulative_deaths st) = Suc d"
  shows "\<exists>st'. append_day (int d) st = Inr st'
     \<and> cumulative_cases st' = cumulative_cases st @ [cumulative_cases st ! d + new_cases st]
     \<and> active_cases st' = active_cases st
          @ [active_cases st ! d + new_cases st - new_recoveries st - new_deaths st]
     \<and> cumulative_recoveries st' = cumulative_recoveries st
          @ [cumulative_recoveries st ! d + new_recoveries st]
     \<and> cumulative_deaths st' = cumulative_deaths st @ [cumulative_deaths st ! d + new_deaths st]
     \<and> daily_new_cases st' = daily_new_cases st @ [new_cases st]
     \<and> daily_new_active_cases st' = daily_new_active_cases st
          @ [new_cases st - new_recoveries st - new_deaths st]
     \<and> daily_new_recoveries st' = daily_new_recoveries st @ [new_recoveries st]
     \<and> daily_new_deaths st' = daily_new_deaths st @ [new_deaths st]
     \<and> maximum_active_cases st' =
          max (maximum_active_cases st)
            (active_cases st ! d + new_cases st - new_recoveries st - new_deaths st)
     \<and> maximum_active_cases_day st' =
          (if active_cases st ! d + new_cases st - new_recoveries st - new_deaths st
                > maximum_active_cases st
           then int d else maximum_active_cases_day st)
     \<and> maximum_daily_new_cases st' = max (maximum_daily_new_cases st) (new_cases st)
     \<and> maximum_new_cases_day st' =
          (if maximum_daily_new_cases st < new_cases st then int d else maximum_new_cases_day st)
     \<and> maximum_new_cases_cumulative st' =
          (if maximum_daily_new_cases st < new_cases st
           then cumulative_cases st ! d + new_cases st else maximum_new_cases_cumulative st)
     \<and> people_list st' = people_list st \<and> generator st' = generator st
     \<and> current_population st' = current_population st"
proof -
  have idx: "py_index (xs @ [v]) (int d + 1) = Inr v" if "length xs = Suc d" for xs :: "int list" and v
    using that py_index_nat [of "Suc d" "xs @ [v]"] by (simp add: add.commute nth_append)
  show ?thesis
    unfolding append_day_def
    by (simp add: assms py_index_nat idx bindE_def Let_def)
qed

section \<open>exercise\_2: induction over the days\<close>

lemma upto_0_map: "[0..n - 1] = map int [0..<nat n]"
proof -
  have "[0..int m - 1] = map int [0..<m]" for m
  proof (induction m)
    case 0
    then show ?case by simp
  next
    case (Suc m)
    have "[0..int (Suc m) - 1] = [0..int m - 1] @ [int m]"
      using upto_rec2 [of 0 "int m"] by simp
    with Suc show ?case by simp
  qed
  from this [of "nat n"] show ?thesis
    by (cases "0 \<le> n") simp_all
qed

lemma for_each_range_induct:
  assumes step: "\<And>d s s'. P d s \<Longrightarrow> f (int d) s = Inr s' \<Longrightarrow> P (Suc d) s'"
  shows "for_each f (map int [d..<n]) s = Inr s' \<Longrightarrow> d \<le> n \<Longrightarrow> P d s \<Longrightarrow> P n s'"
proof (induction "n - d" arbitrary: d s)
  case 0
  then show ?case by simp
next
  case (Suc x)
  then have lt: "d < n" by simp
  then have "map int [d..<n] = int d # map int [Suc d..<n]"
    by (simp add: upt_conv_Cons)
  with Suc.prems(1) obtain s1 where 1: "f (int d) s = Inr s1"
    and 2: "for_each f (map int [Suc d..<n]) s1 = Inr s'"
    by (auto simp: bindE_Inr)
  have "x = n - Suc d" using Suc.hyps(2) by simp
  from Suc.hyps(1) [OF this 2 _ step [OF Suc.prems(3) 1]] lt show ?case by simp
qed

lemma simulate_day_append:
  assumes "simulate_day cfg day st = Inr st'"
  obtains st2 where "append_day day st2 = Inr st'" "recorded st2 = recorded st"
proof -
  let ?st0 = "st\<lparr>new_cases := 0, new_recoveries := 0, new_deaths := 0\<rparr>"
  from assms obtain st1 st2 where 1: "health_pass cfg (length (people_list ?st0)) ?st0 = Inr st1"
    and 2: "contact_pass cfg 0 st1 = Inr st2" and 3: "append_day day st2 = Inr st'"
    by (auto simp: simulate_day_def Let_def bindE_Inr)
  have "recorded st1 = recorded ?st0"
    using returnsD [OF health_pass_returns 1] by simp
  moreover have "recorded st2 = recorded st1"
    using returnsD [OF contact_pass_returns 2] by (simp add: contact_frame_def)
  ultimately have "recorded st2 = recorded st"
    by (simp add: recorded_def)
  with 3 that show thesis by blast
qed

lemma simulate_day_conserved:
  assumes inv: "conserved (Suc d) st" and run: "simulate_day cfg (int d) st = Inr st'"
  shows "conserved (Suc (Suc d)) st'"
proof -
  from simulate_day_append [OF run] obtain st2
    where a: "append_day (int d) st2 = Inr st'" and r: "recorded st2 = recorded st"
    by blast
  from inv r have inv2: "conserved (Suc d) st2"
    by (simp add: conserved_def recorded_def)
  then have lens: "length (cumulative_cases st2) = Suc d" "length (active_cases st2) = Suc d"
    "length (cumulative_recoveries st2) = Suc d" "length (cumulative_deaths st2) = Suc d"
    by (simp_all add: conserved_def)
  from append_day_closed [OF lens] a
  have new: "cumulative_cases st' = cumulative_cases st2 @ [cumulative_cases st2 ! d + new_cases st2]"
    "active_cases st' = active_cases st2
          @ [active_cases st2 ! d + new_cases st2 - new_recoveries st2 - new_deaths st2]"
    "cumulative_recoveries st' = cumulative_recoveries st2
          @ [cumulative_recoveries st2 ! d + new_recoveries st2]"
    "cumulative_deaths st' = cumulative_deaths st2 @ [cumulative_deaths st2 ! d + new_deaths st2]"
    "daily_new_cases st' = daily_new_cases st2 @ [new_cases st2]"
    "daily_new_recoveries st' = daily_new_recoveries st2 @ [new_recoveries st2]"
    "daily_new_deaths st' = daily_new_deaths st2 @ [new_deaths st2]"
    by auto
  have at_d: "active_cases st2 ! d =
      cumulative_cases st2 ! d - cumulative_recoveries st2 ! d - cumulative_deaths st2 ! d"
    using inv2 by (simp add: conserved_def)
  show ?thesis
    using inv2 at_d unfolding conserved_def new
    by (auto simp: nth_append less_Suc_eq)
qed

lemma exercise_2_conserved:
  assumes "exercise_2 cfg g = Inr st'"
  shows "conserved (Suc (nat (cfg_simulation_days cfg))) st'"
proof -
  from assms obtain st0
    where run: "for_each (simulate_day cfg) [0..cfg_simulation_days cfg - 1] (start_tracking cfg st0)
                 = Inr st'"
    by (auto simp: exercise_2_def bindE_Inr)
  have "conserved (Suc 0) (start_tracking cfg st0)"
    by (simp add: conserved_def start_tracking_def)
  from for_each_range_induct [of "\<lambda>d. conserved (Suc d)" "simulate_day cfg" 0
      "nat (cfg_simulation_days cfg)", OF simulate_day_conserved _ _ this] run
  show ?thesis
    by (simp add: upto_0_map)
qed

section \<open>Conservation of the active cases\<close>

lemma history_conservation:
  assumes h: "history d S Ds"
  shows "j \<le> d \<Longrightarrow>
    S ACTIVE_CASES_SERIES ! j =
      S CUMULATIVE_CASES_SERIES ! j - S CUMULATIVE_RECOVERIES_SERIES ! j
        - S CUMULATIVE_DEATHS_SERIES ! j"
proof (induction j)
  case 0
  have "S k ! 0 = day_entry k 0 (Ds ! 0)" for k
    using h by (simp add: history_def)
  then show ?case by simp
next
  case (Suc j)
  then have "j < d" by simp
  then have "S k ! Suc j = day_entry k (S k ! j) (Ds ! Suc j)" for k
    using h by (simp add: history_def)
  with Suc show ?case by simp
qed

lemma history_recurrence:
  assumes h: "history d S Ds" and j: "j < d"
  shows "S CUMULATIVE_CASES_SERIES ! Suc j =
           S CUMULATIVE_CASES_SERIES ! j + S NEW_CASES_SERIES ! Suc j"
    and "S CUMULATIVE_RECOVERIES_SERIES ! Suc j =
           S CUMULATIVE_RECOVERIES_SERIES ! j + S NEW_RECOVERIES_SERIES ! Suc j"
    and "S CUMULATIVE_DEATHS_SERIES ! Suc j =
           S CUMULATIVE_DEATHS_SERIES ! j + S NEW_DEATHS_SERIES ! Suc j"
proof -
  have "S k ! Suc j = day_entry k (S k ! j) (Ds ! Suc j)" for k
    using h j by (simp add: history_def)
  then show "S CUMULATIVE_CASES_SERIES ! Suc j =
           S CUMULATIVE_CASES_SERIES ! j + S NEW_CASES_SERIES ! Suc j"
    and "S CUMULATIVE_RECOVERIES_SERIES ! Suc j =
           S CUMULATIVE_RECOVERIES_SERIES ! j + S NEW_RECOVERIES_SERIES ! Suc j"
    and "S CUMULATIVE_DEATHS_SERIES ! Suc j =
           S CUMULATIVE_DEATHS_SERIES ! j + S NEW_DEATHS_SERIES ! Suc j"
    by simp_all
qed

lemma run_simulation_conservation:
  assumes "keeps_statistics cb"
    and "run_simulation cb (create_initial_state phs n pop infection g z) = Some (Inr ss')"
    and "0 \<le> d" and "d \<le> n"
  shows "length (series ss' ACTIVE_CASES_SERIES) = nat n + 1
    \<and> series ss' ACTIVE_CASES_SERIES ! nat d =
        series ss' CUMULATIVE_CASES_SERIES ! nat d
          - series ss' CUMULATIVE_RECOVERIES_SERIES ! nat d
          - series ss' CUMULATIVE_DEATHS_SERIES ! nat d
    \<and> (d < n \<longrightarrow>
        series ss' CUMULATIVE_CASES_SERIES ! (nat d + 1) =
          series ss' CUMULATIVE_CASES_SERIES ! nat d + series ss' NEW_CASES_SERIES ! (nat d + 1)
      \<and> series ss' CUMULATIVE_RECOVERIES_SERIES ! (nat d + 1) =
          series ss' CUMULATIVE_RECOVERIES_SERIES ! nat d
            + series ss' NEW_RECOVERIES_SERIES ! (nat d + 1)
      \<and> series ss' CUMULATIVE_DEATHS_SERIES ! (nat d + 1) =
          series ss' CUMULATIVE_DEATHS_SERIES ! nat d + series ss' NEW_DEATHS_SERIES ! (nat d + 1))"
proof -
  have n: "0 \<le> n" using assms(3,4) by simp
  from run_simulation_history [OF assms(1,2) n] obtain Ds
    where h: "history (nat n) (series ss') Ds"
      and t: "tracked (Suc (nat n)) (series ss') (max_day ss')" by blast
  have "nat d \<le> nat n" using assms(3,4) by simp
  from history_conservation [OF h this] history_recurrence [OF h, of "nat d"] t assms(3,4)
  show ?thesis
    by (auto simp: tracked_def)
qed

lemma exercise_2_conservation:
  assumes "exercise_2 cfg g = Inr st'" and "0 \<le> d" and "d \<le> cfg_simulation_days cfg"
  shows "length (active_cases st') = nat (cfg_simulation_days cfg) + 1
    \<and> active_cases st' ! nat d =
        cumulative_cases st' ! nat d - cumulative_recoveries st' ! nat d
          - cumulative_deaths st' ! nat d
    \<and> (d < cfg_simulation_days cfg \<longrightarrow>
        cumulative_cases st' ! (nat d + 1) =
          cumulative_cases st' ! nat d + daily_new_cases st' ! (nat d + 1)
      \<and> cumulative_recoveries st' ! (nat d + 1) =
          cumulative_recoveries st' ! nat d + daily_new_recoveries st' ! (nat d + 1)
      \<and> cumulative_deaths st' ! (nat d + 1) =
          cumulative_deaths st' ! nat d + daily_new_deaths st' ! (nat d + 1))"
proof -
  have lt: "nat d < Suc (nat (cfg_simulation_days cfg))"
    using assms(2,3) by simp
  have "d < cfg_simulation_days cfg \<Longrightarrow> Suc (nat d) < Suc (nat (cfg_simulation_days cfg))"
    using assms(2) by simp
  with exercise_2_conserved [OF assms(1)] lt show ?thesis
    unfolding conserved_def by simp
qed

lemma upto_0_1: "[0..(1::int)] = [0, 1]" "[0..(0::int)] = [0]"
  by (simp_all add: upto_rec1)

lemma small_run:
  "\<exists>st'. exercise_2 small_config (sconst 0) = Inr st'
     \<and> cumulative_cases st' = [1, 2] \<and> active_cases st' = [1, 2]
     \<and> daily_new_cases st' = [0, 1]
     \<and> maximum_active_cases st' = 2 \<and> maximum_active_cases_day st' = 0
     \<and> maximum_daily_new_cases st' = 1 \<and> maximum_new_cases_day st' = 0"
  by (simp add: exercise_2_def small_config_def initial_script_def upto_0_1 bindE_def
      infect_one_def random_randint_def py_index_def start_tracking_def simulate_day_def
      Let_def update_health_def item_def random_random_def evaluate_person_def half_contacts_def
      append_day_def numeral_2_eq_2)

section \<open>exercise\_2: the recorded maxima\<close>

lemma running_max_snoc_le:
  assumes "running_max xs m" and "v \<le> xs ! nat m"
  shows "running_max (xs @ [v]) m"
proof -
  from assms(1) have m: "0 \<le> m" "nat m < length xs"
    and ge: "\<And>d. d < length xs \<Longrightarrow> xs ! d \<le> xs ! nat m"
    and gt: "\<And>d. d < nat m \<Longrightarrow> xs ! d < xs ! nat m"
    by (simp_all add: running_max_def)
  have "(xs @ [v]) ! d \<le> (xs @ [v]) ! nat m" if "d < length (xs @ [v])" for d
  proof (cases "d < length xs")
    case True
    with ge m show ?thesis by (simp add: nth_append)
  next
    case False
    with that have "d = length xs" by simp
    with assms(2) m show ?thesis by (simp add: nth_append)
  qed
  moreover have "(xs @ [v]) ! d < (xs @ [v]) ! nat m" if "d < nat m" for d
    using that gt m by (simp add: nth_append)
  ultimately show ?thesis
    using m unfolding running_max_def by simp
qed

lemma running_max_snoc_gt:
  assumes "\<And>x. x \<in> set xs \<Longrightarrow> x < v"
  shows "running_max (xs @ [v]) (int (length xs))"
proof -
  have "(xs @ [v]) ! d \<le> v" if "d < length (xs @ [v])" for d
  proof (cases "d < length xs")
    case True
    then have "xs ! d < v" using assms by simp
    with True show ?thesis by (simp add: nth_append)
  next
    case False
    with that have "d = length xs" by simp
    then show ?thesis by simp
  qed
  moreover have "(xs @ [v]) ! d < v" if "d < length xs" for d
    using that assms by (simp add: nth_append)
  ultimately show ?thesis
    unfolding running_max_def by simp
qed

lemma recorded_max_next:
  assumes r: "recorded_max xs v m" and len: "length xs = Suc d"
  shows "recorded_max (xs @ [a]) (max v a) (if a > v then int d else m)"
proof -
  from len have tl: "tl (xs @ [a]) = tl xs @ [a]" "length (tl xs) = d"
    by (cases xs; simp)+
  from r have v: "0 \<le> v" and le: "\<And>x. x \<in> set (tl xs) \<Longrightarrow> x \<le> v"
    by (simp_all add: recorded_max_def)
  show ?thesis
  proof (cases "a > v")
    case True
    have "x < a" if "x \<in> set (tl xs)" for x
      using le [OF that] True by simp
    from running_max_snoc_gt [of "tl xs" a, OF this]
    have "running_max (tl xs @ [a]) (int d)"
      using tl by simp
    moreover have "(tl xs @ [a]) ! d = a"
      using tl by (simp add: nth_append)
    moreover have "x \<le> max v a" if "x \<in> set (tl xs @ [a])" for x
      using that le [of x] by auto
    moreover have "0 \<le> max v a" "max v a = a"
      using v True by simp_all
    ultimately show ?thesis
      using True unfolding recorded_max_def tl by simp
  next
    case False
    then have mx: "max v a = v" by simp
    have "running_max (tl xs @ [a]) m \<and> (tl xs @ [a]) ! nat m = v" if "0 < v"
    proof -
      from r that have rm: "running_max (tl xs) m" and at: "tl xs ! nat m = v"
        by (simp_all add: recorded_max_def)
      from False at have "a \<le> tl xs ! nat m" by simp
      from running_max_snoc_le [OF rm this] rm at show ?thesis
        by (simp add: running_max_def nth_append)
    qed
    with False v le show ?thesis
      unfolding recorded_max_def tl mx by auto
  qed
qed

lemma simulate_day_maxima:
  assumes inv: "conserved (Suc d) st \<and> maxima_recorded st"
    and run: "simulate_day cfg (int d) st = Inr st'"
  shows "conserved (Suc (Suc d)) st' \<and> maxima_recorded st'"
proof -
  from simulate_day_append [OF run] obtain st2
    where a: "append_day (int d) st2 = Inr st'" and r: "recorded st2 = recorded st"
    by blast
  from inv r have inv2: "conserved (Suc d) st2"
    "recorded_max (active_cases st2) (maximum_active_cases st2) (maximum_active_cases_day st2)"
    "recorded_max (daily_new_cases st2) (maximum_daily_new_cases st2) (maximum_new_cases_day st2)"
    by (simp_all add: conserved_def recorded_def maxima_recorded_def)
  then have lens: "length (cumulative_cases st2) = Suc d" "length (active_cases st2) = Suc d"
    "length (cumulative_recoveries st2) = Suc d" "length (cumulative_deaths st2) = Suc d"
    and lenn: "length (daily_new_cases st2) = Suc d"
    by (simp_all add: conserved_def)
  let ?a = "active_cases st2 ! d + new_cases st2 - new_recoveries st2 - new_deaths st2"
  from append_day_closed [OF lens] a
  have new: "active_cases st' = active_cases st2 @ [?a]"
    "daily_new_cases st' = daily_new_cases st2 @ [new_cases st2]"
    "maximum_active_cases st' = max (maximum_active_cases st2) ?a"
    "maximum_active_cases_day st' =
       (if ?a > maximum_active_cases st2 then int d else maximum_active_cases_day st2)"
    "maximum_daily_new_cases st' = max (maximum_daily_new_cases st2) (new_cases st2)"
    "maximum_new_cases_day st' =
       (if new_cases st2 > maximum_daily_new_cases st2 then int d else maximum_new_cases_day st2)"
    by auto
  have c: "conserved (Suc (Suc d)) st'"
    using simulate_day_conserved [OF _ run] inv by blast
  have m1: "recorded_max (active_cases st') (maximum_active_cases st') (maximum_active_cases_day st')"
    using recorded_max_next [OF inv2(2) lens(2), of ?a] unfolding new .
  have m2: "recorded_max (daily_new_cases st') (maximum_daily_new_cases st') (maximum_new_cases_day st')"
    using recorded_max_next [OF inv2(3) lenn, of "new_cases st2"] unfolding new .
  from c m1 m2 show ?thesis by (simp add: maxima_recorded_def)
qed

lemma exercise_2_maxima:
  assumes "exercise_2 cfg g = Inr st'"
  shows "maxima_recorded st'"
proof -
  from assms obtain st0
    where run: "for_each (simulate_day cfg) [0..cfg_simulation_days cfg - 1] (start_tracking cfg st0)
                 = Inr st'"
    by (auto simp: exercise_2_def bindE_Inr)
  have "recorded_max [x] 0 0" for x
    by (simp add: recorded_max_def)
  then have "maxima_recorded (start_tracking cfg st0)"
    by (simp add: maxima_recorded_def start_tracking_def)
  moreover have "conserved (Suc 0) (start_tracking cfg st0)"
    by (simp add: conserved_def start_tracking_def)
  ultimately have base: "conserved (Suc 0) (start_tracking cfg st0)
      \<and> maxima_recorded (start_tracking cfg st0)" by blast
  have run': "for_each (simulate_day cfg) (map int [0..<nat (cfg_simulation_days cfg)])
      (start_tracking cfg st0) = Inr st'"
    using run by (simp add: upto_0_map)
  from for_each_range_induct [of "\<lambda>d st. conserved (Suc d) st \<and> maxima_recorded st"
      "simulate_day cfg" 0 "nat (cfg_simulation_days cfg)", OF simulate_day_maxima run' _ base]
  show ?thesis by simp
qed

section \<open>simulate\_v2: conditions of an unrecognized kind\<close>

lemma test_condition_unrecognized:
  assumes "cond_type condition = Some ty" and "ty \<notin> set recognized_kinds"
  shows "test_condition ss condition day = Inr (False, [unrecognized_report ty])"
  using assms
  by (simp add: test_condition_def recognized_kinds_def unrecognized_report_def item_def bindE_def)

lemma check_daily_unrecognized:
  assumes "cond_type condition = Some ty" and "ty \<notin> set recognized_kinds"
  shows "check_daily ss condition ds =
     Inr (replicate (length ds) False, replicate (length ds) (unrecognized_report ty))"
  by (induction ds) (simp_all add: test_condition_unrecognized [OF assms] bindE_def)

section \<open>simulate\_v2: the labels of the two series of deaths\<close>

lemma write_data_deaths:
  assumes "write_data ss = Inr data"
  shows "map_of data ''cumulative deaths'' = Some (JList (series ss CUMULATIVE_CONFIRMED_DEATHS_SERIES))"
    and "map_of data ''cumulative confirmed deaths'' = Some (JList (series ss CUMULATIVE_DEATHS_SERIES))"
  using assms by (auto simp: write_data_def SERIALIZE_KEYS_def bindE_Inr)

section \<open>simulate\_v2: what the two series of deaths accumulate\<close>

lemma history_deaths:
  assumes h: "history d S Ds"
  shows "j \<le> d \<Longrightarrow>
      S CUMULATIVE_DEATHS_SERIES ! j = (\<Sum>i\<le>j. (Ds ! i) DAILY_DEATHS)
    \<and> S CUMULATIVE_CONFIRMED_DEATHS_SERIES ! j = (\<Sum>i\<le>j. (Ds ! i) DAILY_CONFIRMED_DEATHS)"
proof (induction j)
  case 0
  have "S k ! 0 = day_entry k 0 (Ds ! 0)" for k
    using h by (simp add: history_def)
  then show ?case by simp
next
  case (Suc j)
  then have "j < d" by simp
  then have "S k ! Suc j = day_entry k (S k ! j) (Ds ! Suc j)" for k
    using h by (simp add: history_def)
  with Suc show ?case by simp
qed

lemma run_simulation_deaths:
  assumes "keeps_statistics cb"
    and "run_simulation cb (create_initial_state phs n pop infection g z) = Some (Inr ss')"
    and "0 \<le> n"
  shows "\<exists>Ds. history (nat n) (series ss') Ds
    \<and> length (series ss' CUMULATIVE_DEATHS_SERIES) = nat n + 1
    \<and> length (series ss' CUMULATIVE_CONFIRMED_DEATHS_SERIES) = nat n + 1
    \<and> (\<forall>j \<le> nat n.
          series ss' CUMULATIVE_DEATHS_SERIES ! j = (\<Sum>i\<le>j. (Ds ! i) DAILY_DEATHS)
        \<and> series ss' CUMULATIVE_CONFIRMED_DEATHS_SERIES ! j =
            (\<Sum>i\<le>j. (Ds ! i) DAILY_CONFIRMED_DEATHS))"
proof -
  from run_simulation_history [OF assms] obtain Ds
    where h: "history (nat n) (series ss') Ds"
      and t: "tracked (Suc (nat n)) (series ss') (max_day ss')" by blast
  from h history_deaths [OF h] t show ?thesis
    by (intro exI [of _ Ds]) (simp add: tracked_def)
qed

lemma write_data_initial:
  "\<exists>data. write_data (create_initial_state [] n pop infection g z) = Inr data"
  by (simp add: write_data_def create_initial_state_def bindE_def)

section \<open>simulate\_v2: where the seeding loop stops\<close>




section \<open>exercise\_2: a contagious state that always kills\<close>







lemma none_recovering_generator [simp]:
  "none_recovering (st\<lparr>generator := g\<rparr>) \<longleftrightarrow> none_recovering st"
  by (simp add: none_recovering_def)










section \<open>The end of the contagious state when it always kills\<close>


lemma advance_health_state_unfold:
  "advance_health_state ss i old_health_state =
     (case death_rate old_health_state of
        None \<Rightarrow> Inl KeyError
      | Some rate \<Rightarrow>
          if rate > 0 \<and> fst (random_random (s_generator ss)) < rate then
            Inr (ss\<lparr> s_people := remove1 (s_people ss ! i) (s_people ss),
                     s_daily_deaths := s_daily_deaths ss + 1,
                     s_daily_population := s_daily_population ss - 1,
                     s_generator := stl (s_generator ss) \<rparr>)
          else
            (case next_state old_health_state of
               None \<Rightarrow> Inl KeyError
             | Some next \<Rightarrow>
                 Inr (ss\<lparr> s_people := (s_people ss)[i := (s_people ss ! i)\<lparr>state := next, days := 1\<rparr>],
                          s_daily_recoveries :=
                            (if next = Immune then s_daily_recoveries ss + 1 else s_daily_recoveries ss),
                          s_daily_cases :=
                            (if next = Infected then s_daily_cases ss + 1 else s_daily_cases ss),
                          s_generator :=
                            (if rate > 0 then stl (s_generator ss) else s_generator ss) \<rparr>)))"
  unfolding advance_health_state_def Let_def
  by (subst random_random_split) (auto simp: bindE_def item_def split: option.splits)




section \<open>The contacts of a person who can be infected\<close>

lemma infected_at_most_once_generator [simp]:
  "infected_at_most_once i (st\<lparr>generator := g\<rparr>) st' \<longleftrightarrow> infected_at_most_once i st st'"
  by (simp add: infected_at_most_once_def)

lemma look_for_infectious_once:
  "returns (look_for_infectious cfg n i st) (infected_at_most_once i st)"
proof (induction n arbitrary: st)
  case 0
  then show ?case by (simp add: infected_at_most_once_def)
next
  case (Suc n)
  have hit: "infected_at_most_once i st (st\<lparr> people_list := (people_list st)
                         [i := (people_list st ! i)\<lparr>state := Infected, days := 1\<rparr>],
                       new_cases := new_cases st + 1,
                       generator := g \<rparr>)" for g
    by (simp add: infected_at_most_once_def)
  have go: "returns (look_for_infectious cfg n i (st\<lparr>generator := g\<rparr>)) (infected_at_most_once i st)" for g
    using Suc.IH [of "st\<lparr>generator := g\<rparr>"] by simp
  show ?case
    unfolding look_for_infectious_Suc
    by (simp add: returns_case_sum hit go split: sum.splits)
qed

lemma py_index_sampled:
  assumes "0 < n" and "nat n \<le> length xs"
  shows "py_index xs (int (shd g) mod n) = Inr (sampled xs n g)"
proof -
  have "0 \<le> int (shd g) mod n" "int (shd g) mod n < n"
    using assms(1) by simp_all
  then show ?thesis
    using assms(2) by (simp add: py_index_def sampled_def)
qed

lemma look_for_infectious_first_contagious:
  "0 < current_population st \<Longrightarrow> nat (current_population st) \<le> length (people_list st) \<Longrightarrow>
   generator st = g \<Longrightarrow> k < n \<Longrightarrow>
   \<forall>m < k. state (sampled (people_list st) (current_population st) (sdrop m g)) \<noteq> Contagious \<Longrightarrow>
   state (sampled (people_list st) (current_population st) (sdrop k g)) = Contagious \<Longrightarrow>
   fst (random_random (sdrop (Suc k) g)) < cfg_transmission_probability cfg \<Longrightarrow>
   look_for_infectious cfg n i st =
     Inr (st\<lparr> people_list := (people_list st)
                [i := (people_list st ! i)\<lparr>state := Infected, days := 1\<rparr>],
              new_cases := new_cases st + 1,
              generator := sdrop (Suc (Suc k)) g \<rparr>)"
proof (induction k arbitrary: n st g)
  case 0
  then obtain n' where n: "n = Suc n'" by (cases n) auto
  from 0 show ?case
    unfolding n look_for_infectious_Suc
    by (simp add: py_index_sampled)
next
  case (Suc k)
  then obtain n' where n: "n = Suc n'" by (cases n) auto
  let ?st1 = "st\<lparr>generator := stl g\<rparr>"
  have first: "state (sampled (people_list st) (current_population st) g) \<noteq> Contagious"
    using Suc.prems(5) [rule_format, of 0] by simp
  have rest: "state (sampled (people_list st) (current_population st) (sdrop m (stl g)))
          \<noteq> Contagious" if "m < k" for m
    using Suc.prems(5) [rule_format, of "Suc m"] that by simp
  have "look_for_infectious cfg n' i ?st1 =
      Inr (?st1\<lparr> people_list := (people_list ?st1)
                 [i := (people_list ?st1 ! i)\<lparr>state := Infected, days := 1\<rparr>],
               new_cases := new_cases ?st1 + 1,
               generator := sdrop (Suc (Suc k)) (stl g) \<rparr>)"
  proof (rule Suc.IH)
    show "0 < current_population ?st1" "nat (current_population ?st1) \<le> length (people_list ?st1)"
      "generator ?st1 = stl g" "k < n'"
      using Suc.prems(1,2,4) n by simp_all
    show "\<forall>m < k. state (sampled (people_list ?st1) (current_population ?st1) (sdrop m (stl g)))
          \<noteq> Contagious"
      using rest by simp
    show "state (sampled (people_list ?st1) (current_population ?st1) (sdrop k (stl g))) = Contagious"
      using Suc.prems(6) by simp
    show "fst (random_random (sdrop (Suc k) (stl g))) < cfg_transmission_probability cfg"
      using Suc.prems(7) by simp
  qed
  with first Suc.prems(1,2,3) show ?case
    unfolding n look_for_infectious_Suc
    by (simp add: py_index_sampled)
qed


lemma contacts_of_susceptible_Suc:
  "contacts_of_susceptible table (Suc n) i ss =
     (if s_daily_population ss \<le> 0 then Inl ValueError
      else case py_index (s_people ss) (int (shd (s_generator ss)) mod s_daily_population ss) of
        Inl e \<Rightarrow> Inl e
      | Inr contact \<Rightarrow>
          if state contact = Contagious then
            if fst (random_random (stl (s_generator ss))) < s_current_transmission_probability ss then
              advance_health_state (ss\<lparr>s_generator := stl (stl (s_generator ss))\<rparr>) i
                (table (state (s_people ss ! i)))
            else contacts_of_susceptible table n i (ss\<lparr>s_generator := stl (stl (s_generator ss))\<rparr>)
          else contacts_of_susceptible table n i (ss\<lparr>s_generator := stl (s_generator ss)\<rparr>))"
  by (simp add: random_randint_0 bindE_def random_random_def split: sum.splits)

lemma contacts_of_contagious_Suc:
  "contacts_of_contagious table (Suc n) ss =
     (if s_daily_population ss \<le> 0 then Inl ValueError
      else case py_index (s_people ss) (int (shd (s_generator ss)) mod s_daily_population ss) of
        Inl e \<Rightarrow> Inl e
      | Inr contact \<Rightarrow>
          if can_be_infected (table (state contact)) then
            if fst (random_random (stl (s_generator ss))) < s_current_transmission_probability ss then
              bindE (advance_health_state (ss\<lparr>s_generator := stl (stl (s_generator ss))\<rparr>)
                       (nat (int (shd (s_generator ss)) mod s_daily_population ss))
                       (table (state contact)))
                (contacts_of_contagious table n)
            else contacts_of_contagious table n (ss\<lparr>s_generator := stl (stl (s_generator ss))\<rparr>)
          else contacts_of_contagious table n (ss\<lparr>s_generator := stl (s_generator ss)\<rparr>))"
  by (simp add: random_randint_0 bindE_def random_random_def split: sum.splits)

lemma infected_at_most_once_3d_generator [simp]:
  "infected_at_most_once_3d i (ss\<lparr>s_generator := g\<rparr>) ss' \<longleftrightarrow> infected_at_most_once_3d i ss ss'"
  by (simp add: infected_at_most_once_3d_def)

lemma contacts_of_susceptible_once:
  "state (s_people ss ! i) = Well \<Longrightarrow>
   returns (contacts_of_susceptible HEALTH_STATES n i ss) (infected_at_most_once_3d i ss)"
proof (induction n arbitrary: ss)
  case 0
  then show ?case by (simp add: infected_at_most_once_3d_def)
next
  case (Suc n)
  have hit: "returns (advance_health_state (ss\<lparr>s_generator := g\<rparr>) i (HEALTH_STATES Well))
      (infected_at_most_once_3d i ss)" for g
    by (simp add: advance_health_state_unfold infected_at_most_once_3d_def)
  have go: "returns (contacts_of_susceptible HEALTH_STATES n i (ss\<lparr>s_generator := g\<rparr>))
      (infected_at_most_once_3d i ss)" for g
    using Suc.IH [of "ss\<lparr>s_generator := g\<rparr>"] Suc.prems by simp
  show ?case
    unfolding contacts_of_susceptible_Suc
    using Suc.prems
    by (simp add: returns_case_sum hit go del: HEALTH_STATES.simps split: sum.splits)
qed

lemma contacts_of_susceptible_first_contagious:
  "0 < s_daily_population ss \<Longrightarrow> nat (s_daily_population ss) \<le> length (s_people ss) \<Longrightarrow>
   s_generator ss = g \<Longrightarrow> k < n \<Longrightarrow> state (s_people ss ! i) = Well \<Longrightarrow>
   \<forall>m < k. state (sampled (s_people ss) (s_daily_population ss) (sdrop m g)) \<noteq> Contagious \<Longrightarrow>
   state (sampled (s_people ss) (s_daily_population ss) (sdrop k g)) = Contagious \<Longrightarrow>
   fst (random_random (sdrop (Suc k) g)) < s_current_transmission_probability ss \<Longrightarrow>
   \<exists>ss'. contacts_of_susceptible HEALTH_STATES n i ss = Inr ss'
     \<and> s_people ss' = (s_people ss)[i := (s_people ss ! i)\<lparr>state := Infected, days := 1\<rparr>]
     \<and> s_daily_cases ss' = s_daily_cases ss + 1
     \<and> s_generator ss' = sdrop (Suc (Suc k)) g"
proof (induction k arbitrary: n ss g)
  case 0
  then obtain n' where n: "n = Suc n'" by (cases n) auto
  from 0 show ?case
    unfolding n contacts_of_susceptible_Suc
    by (simp add: py_index_sampled advance_health_state_unfold)
next
  case (Suc k)
  then obtain n' where n: "n = Suc n'" by (cases n) auto
  let ?ss1 = "ss\<lparr>s_generator := stl g\<rparr>"
  have first: "state (sampled (s_people ss) (s_daily_population ss) g) \<noteq> Contagious"
    using Suc.prems(6) [rule_format, of 0] by simp
  have rest: "state (sampled (s_people ss) (s_daily_population ss) (sdrop m (stl g)))
          \<noteq> Contagious" if "m < k" for m
    using Suc.prems(6) [rule_format, of "Suc m"] that by simp
  have "\<exists>ss'. contacts_of_susceptible HEALTH_STATES n' i ?ss1 = Inr ss'
     \<and> s_people ss' = (s_people ?ss1)[i := (s_people ?ss1 ! i)\<lparr>state := Infected, days := 1\<rparr>]
     \<and> s_daily_cases ss' = s_daily_cases ?ss1 + 1
     \<and> s_generator ss' = sdrop (Suc (Suc k)) (stl g)"
  proof (rule Suc.IH)
    show "0 < s_daily_population ?ss1" "nat (s_daily_population ?ss1) \<le> length (s_people ?ss1)"
      "s_generator ?ss1 = stl g" "k < n'" "state (s_people ?ss1 ! i) = Well"
      using Suc.prems(1,2,4,5) n by simp_all
    show "\<forall>m < k. state (sampled (s_people ?ss1) (s_daily_population ?ss1) (sdrop m (stl g)))
          \<noteq> Contagious"
      using rest by simp
    show "state (sampled (s_people ?ss1) (s_daily_population ?ss1) (sdrop k (stl g))) = Contagious"
      using Suc.prems(7) by simp
    show "fst (random_random (sdrop (Suc k) (stl g))) < s_current_transmission_probability ?ss1"
      using Suc.prems(8) by simp
  qed
  with first Suc.prems(1,2,3) show ?case
    unfolding n contacts_of_susceptible_Suc
    by (simp add: py_index_sampled)
qed

section \<open>How many contacts are sampled\<close>

lemma half_contacts_div: "half_contacts c = nat (c div 2)"
  by (simp add: half_contacts_def)

lemma sampled_in_set:
  assumes "0 < n" and "nat n \<le> length xs"
  shows "sampled xs n g \<in> set xs"
proof -
  have "0 \<le> int (shd g) mod n" "int (shd g) mod n < n"
    using assms(1) by simp_all
  then have "nat (int (shd g) mod n) < length xs"
    using assms(2) by linarith
  then show ?thesis
    by (simp add: sampled_def)
qed

lemma look_for_infectious_all_draws:
  "0 < current_population st \<Longrightarrow> nat (current_population st) \<le> length (people_list st) \<Longrightarrow>
   \<forall>p \<in> set (people_list st). state p \<noteq> Contagious \<Longrightarrow>
   look_for_infectious cfg n i st = Inr (st\<lparr>generator := sdrop n (generator st)\<rparr>)"
proof (induction n arbitrary: st)
  case 0
  then show ?case by simp
next
  case (Suc n)
  have "state (sampled (people_list st) (current_population st) (generator st)) \<noteq> Contagious"
    using sampled_in_set [OF Suc.prems(1,2)] Suc.prems(3) by blast
  moreover have "look_for_infectious cfg n i (st\<lparr>generator := stl (generator st)\<rparr>) =
      Inr (st\<lparr>generator := sdrop n (stl (generator st))\<rparr>)"
    using Suc.IH [of "st\<lparr>generator := stl (generator st)\<rparr>"] Suc.prems by simp
  ultimately show ?case
    unfolding look_for_infectious_Suc
    using Suc.prems(1,2) by (simp add: py_index_sampled)
qed

lemma look_for_susceptible_all_draws:
  "0 < current_population st \<Longrightarrow> nat (current_population st) \<le> length (people_list st) \<Longrightarrow>
   \<forall>p \<in> set (people_list st). \<not> can_be_infected (cfg_health_states cfg (state p)) \<Longrightarrow>
   look_for_susceptible cfg n st = Inr (st\<lparr>generator := sdrop n (generator st)\<rparr>)"
proof (induction n arbitrary: st)
  case 0
  then show ?case by simp
next
  case (Suc n)
  have "\<not> can_be_infected (cfg_health_states cfg
      (state (sampled (people_list st) (current_population st) (generator st))))"
    using sampled_in_set [OF Suc.prems(1,2)] Suc.prems(3) by blast
  moreover have "look_for_susceptible cfg n (st\<lparr>generator := stl (generator st)\<rparr>) =
      Inr (st\<lparr>generator := sdrop n (stl (generator st))\<rparr>)"
    using Suc.IH [of "st\<lparr>generator := stl (generator st)\<rparr>"] Suc.prems by simp
  ultimately show ?case
    unfolding look_for_susceptible_Suc
    using Suc.prems(1,2) by (simp add: py_index_sampled)
qed

lemma look_for_susceptible_goes_on:
  "0 < current_population st \<Longrightarrow> nat (current_population st) \<le> length (people_list st) \<Longrightarrow>
   can_be_infected (cfg_health_states cfg
     (state (sampled (people_list st) (current_population st) (generator st)))) \<Longrightarrow>
   fst (random_random (stl (generator st))) < cfg_transmission_probability cfg \<Longrightarrow>
   look_for_susceptible cfg (Suc n) st =
     look_for_susceptible cfg n
       (st\<lparr> people_list := (people_list st)
                [nat (int (shd (generator st)) mod current_population st) :=
                   (sampled (people_list st) (current_population st) (generator st))
                     \<lparr>state := Infected, days := 1\<rparr>],
             new_cases := new_cases st + 1,
             generator := stl (stl (generator st)) \<rparr>)"
  unfolding look_for_susceptible_Suc
  by (simp add: py_index_sampled)

lemma evaluate_person_susceptible:
  "can_be_infected (cfg_health_states cfg (state (people_list st ! i))) \<Longrightarrow>
   evaluate_person cfg i st = look_for_infectious cfg (nat (cfg_daily_contacts cfg div 2)) i st"
  by (simp add: evaluate_person_def half_contacts_div)

lemma evaluate_person_contagious:
  "\<not> can_be_infected (cfg_health_states cfg (state (people_list st ! i))) \<Longrightarrow>
   state (people_list st ! i) = Contagious \<Longrightarrow>
   evaluate_person cfg i st = look_for_susceptible cfg (nat (cfg_daily_contacts cfg div 2)) st"
  by (simp add: evaluate_person_def half_contacts_div)

lemma evaluate_contacts_susceptible:
  "can_be_infected (table (state (s_people ss ! i))) \<Longrightarrow>
   evaluate_contacts table ss i =
     contacts_of_susceptible table (nat (s_current_daily_contacts ss div 2)) i ss"
  by (simp add: evaluate_contacts_def half_contacts_div)

lemma evaluate_contacts_contagious:
  "\<not> can_be_infected (table (state (s_people ss ! i))) \<Longrightarrow>
   state (s_people ss ! i) = Contagious \<Longrightarrow>
   evaluate_contacts table ss i =
     contacts_of_contagious table (nat (s_current_daily_contacts ss div 2)) ss"
  by (simp add: evaluate_contacts_def half_contacts_div)

lemma two_infections:
  "\<exists>st'. evaluate_person (small_config\<lparr>cfg_daily_contacts := 5\<rparr>) 0 small_script = Inr st'
     \<and> map state (people_list st') = [Contagious, Infected, Infected]
     \<and> new_cases st' = new_cases small_script + 2"
  by (simp add: evaluate_person_def small_script_def small_config_def start_tracking_def
      initial_script_def half_contacts_def numeral_2_eq_2 random_randint_def random_random_def
      bindE_def py_index_def)

lemma two_infections_3d:
  "\<exists>ss'. evaluate_contacts HEALTH_STATES (small_state_3d\<lparr>s_current_daily_contacts := 5\<rparr>) 0 = Inr ss'
     \<and> map state (s_people ss') = [Contagious, Infected, Infected]
     \<and> s_daily_cases ss' = s_daily_cases small_state_3d + 2"
  by (simp add: evaluate_contacts_def small_state_3d_def half_contacts_def numeral_2_eq_2
      random_randint_def random_random_def py_index_def advance_health_state_unfold bindE_def)

section \<open>The claims\<close>



text \<open>
  C1. In a run of \<^verbatim>\<open>run_simulation\<close> whose collaborators leave the series alone, and in
  a run of the script \<^verbatim>\<open>exercise_2\<close>, the series have one entry for every day from 0 to
  the number of simulated days; on each of these days the active cases are the cumulative
  cases less the cumulative recoveries and the cumulative deaths, and each cumulative
  series is the entry of the day before plus the new cases, recoveries or deaths of the day.
\<close>

theorem active_cases_conservation:
  "(keeps_statistics cb \<longrightarrow>
      run_simulation cb (create_initial_state phs n pop infection g z) = Some (Inr ss') \<longrightarrow>
      0 \<le> d \<longrightarrow> d \<le> n \<longrightarrow>
        length (series ss' ACTIVE_CASES_SERIES) = nat n + 1
      \<and> series ss' ACTIVE_CASES_SERIES ! nat d =
          series ss' CUMULATIVE_CASES_SERIES ! nat d
            - series ss' CUMULATIVE_RECOVERIES_SERIES ! nat d
            - series ss' CUMULATIVE_DEATHS_SERIES ! nat d
      \<and> (d < n \<longrightarrow>
          series ss' CUMULATIVE_CASES_SERIES ! (nat d + 1) =
            series ss' CUMULATIVE_CASES_SERIES ! nat d + series ss' NEW_CASES_SERIES ! (nat d + 1)
        \<and> series ss' CUMULATIVE_RECOVERIES_SERIES ! (nat d + 1) =
            series ss' CUMULATIVE_RECOVERIES_SERIES ! nat d
              + series ss' NEW_RECOVERIES_SERIES ! (nat d + 1)
        \<and> series ss' CUMULATIVE_DEATHS_SERIES ! (nat d + 1) =
            series ss' CUMULATIVE_DEATHS_SERIES ! nat d
              + series ss' NEW_DEATHS_SERIES ! (nat d + 1)))
   \<and> (exercise_2 cfg g' = Inr st' \<longrightarrow> 0 \<le> e \<longrightarrow> e \<le> cfg_simulation_days cfg \<longrightarrow>
        length (active_cases st') = nat (cfg_simulation_days cfg) + 1
      \<and> active_cases st' ! nat e =
          cumulative_cases st' ! nat e - cumulative_recoveries st' ! nat e
            - cumulative_deaths st' ! nat e
      \<and> (e < cfg_simulation_days cfg \<longrightarrow>
          cumulative_cases st' ! (nat e + 1) =
            cumulative_cases st' ! nat e + daily_new_cases st' ! (nat e + 1)
        \<and> cumulative_recoveries st' ! (nat e + 1) =
            cumulative_recoveries st' ! nat e + daily_new_recoveries st' ! (nat e + 1)
        \<and> cumulative_deaths st' ! (nat e + 1) =
            cumulative_deaths st' ! nat e + daily_new_deaths st' ! (nat e + 1)))"
  using run_simulation_conservation [of cb phs n pop infection g z ss' d]
    exercise_2_conservation [of cfg g' st' e]
  by blast

theorem active_cases_conservation_witness:
  "\<exists>ss' st'.
     keeps_statistics (test_callbacks 1 :: unit callbacks)
   \<and> run_simulation (test_callbacks 1) (create_initial_state [] 1 1 1 (sconst 0) ()) = Some (Inr ss')
   \<and> (0::int) \<le> 1 \<and> (1::int) \<le> 1
   \<and> series ss' ACTIVE_CASES_SERIES ! nat 1 =
       series ss' CUMULATIVE_CASES_SERIES ! nat 1 - series ss' CUMULATIVE_RECOVERIES_SERIES ! nat 1
         - series ss' CUMULATIVE_DEATHS_SERIES ! nat 1
   \<and> exercise_2 small_config (sconst 0) = Inr st'
   \<and> (1::int) \<le> cfg_simulation_days small_config
   \<and> active_cases st' ! nat 1 =
       cumulative_cases st' ! nat 1 - cumulative_recoveries st' ! nat 1
         - cumulative_deaths st' ! nat 1"
proof -
  obtain ss' :: sim_state
    where run: "run_simulation (test_callbacks 1) (create_initial_state [] 1 1 1 (sconst 0) ())
       = Some (Inr ss')"
    using test_run_returns [of 1 1 1 1 "[]" "sconst 0" "()"] by auto
  obtain st' where script: "exercise_2 small_config (sconst 0) = Inr st'"
    using small_run by blast
  have days: "(1::int) \<le> cfg_simulation_days small_config"
    by (simp add: small_config_def)
  have keeps: "keeps_statistics (test_callbacks 1 :: unit callbacks)"
    by (rule keeps_statistics_test_callbacks)
  from active_cases_conservation
    [of "test_callbacks 1" "[]" 1 1 1 "sconst 0" "()" ss' 1 small_config "sconst 0" st' 1]
    keeps run script days
  show ?thesis
    by (intro exI [of _ ss'] exI [of _ st']) simp
qed

text \<open>
  C6, as stated, fails on the script \<^verbatim>\<open>exercise_2\<close>: on the small configuration the
  active cases are 1 and then 2, and the day recorded for their maximum is 0, where the
  series is below its entry at index 1.
\<close>

theorem recorded_day_counterexample:
  "\<not> isl (exercise_2 small_config (sconst 0))
   \<and> \<not> running_max (active_cases (projr (exercise_2 small_config (sconst 0))))
         (maximum_active_cases_day (projr (exercise_2 small_config (sconst 0))))"
proof -
  obtain st' where run: "exercise_2 small_config (sconst 0) = Inr st'"
    and a: "active_cases st' = [1, 2]" and m: "maximum_active_cases_day st' = 0"
    using small_run by blast
  have "\<not> running_max [1, 2 :: int] 0"
  proof
    assume "running_max [1, 2 :: int] 0"
    then have "\<forall>d < length [1, 2 :: int]. [1, 2 :: int] ! d \<le> [1, 2] ! nat 0"
      unfolding running_max_def by blast
    from this [rule_format, of 1] show False by simp
  qed
  with run a m show ?thesis by simp
qed

text \<open>
  C6, amended. In a run of \<^verbatim>\<open>run_simulation\<close> whose collaborators leave the series
  alone, for each of the six tracked maxima the recorded day \<^verbatim>\<open>m\<close> is an index of its
  series, the entry at \<^verbatim>\<open>m\<close> is at least every entry and strictly above every earlier
  entry. In the script \<^verbatim>\<open>exercise_2\<close> the recorded value starts at 0 and is at least every
  entry that the loop appended; when it is positive, the recorded day \<^verbatim>\<open>m\<close> counts the
  rounds of the loop from 0: the value is the entry at index \<^verbatim>\<open>m + 1\<close>, at least every
  appended entry and strictly above those appended before it.
\<close>

theorem running_maxima:
  "(keeps_statistics cb \<longrightarrow>
      run_simulation cb (create_initial_state phs n pop infection g z) = Some (Inr ss') \<longrightarrow>
      0 \<le> n \<longrightarrow> (\<forall>m. running_max (series ss' (max_series m)) (max_day ss' m)))
   \<and> (exercise_2 cfg g' = Inr st' \<longrightarrow>
        recorded_max (active_cases st') (maximum_active_cases st') (maximum_active_cases_day st')
      \<and> recorded_max (daily_new_cases st') (maximum_daily_new_cases st')
          (maximum_new_cases_day st'))"
  using run_simulation_maxima [of cb phs n pop infection g z ss']
    exercise_2_maxima [of cfg g' st']
  by (simp add: maxima_recorded_def)

theorem running_maxima_witness:
  "\<exists>ss' st'.
     keeps_statistics (test_callbacks 1 :: unit callbacks)
   \<and> run_simulation (test_callbacks 1) (create_initial_state [] 1 1 1 (sconst 0) ()) = Some (Inr ss')
   \<and> (0::int) \<le> 1
   \<and> (\<forall>m. running_max (series ss' (max_series m)) (max_day ss' m))
   \<and> exercise_2 small_config (sconst 0) = Inr st'
   \<and> recorded_max (active_cases st') (maximum_active_cases st') (maximum_active_cases_day st')
   \<and> active_cases st' = [1, 2] \<and> maximum_active_cases st' = 2
   \<and> maximum_active_cases_day st' = 0"
proof -
  obtain ss' :: sim_state
    where run: "run_simulation (test_callbacks 1) (create_initial_state [] 1 1 1 (sconst 0) ())
       = Some (Inr ss')"
    using test_run_returns [of 1 1 1 1 "[]" "sconst 0" "()"] by auto
  obtain st' where script: "exercise_2 small_config (sconst 0) = Inr st'"
    and vals: "active_cases st' = [1, 2]" "maximum_active_cases st' = 2"
      "maximum_active_cases_day st' = 0"
    using small_run by blast
  have keeps: "keeps_statistics (test_callbacks 1 :: unit callbacks)"
    by (rule keeps_statistics_test_callbacks)
  from running_maxima
    [of "test_callbacks 1" "[]" 1 1 1 "sconst 0" "()" ss' small_config "sconst 0" st']
    keeps run script
  have "(\<forall>m. running_max (series ss' (max_series m)) (max_day ss' m))
    \<and> recorded_max (active_cases st') (maximum_active_cases st') (maximum_active_cases_day st')"
    by simp
  with keeps run script vals show ?thesis
    by (intro exI [of _ ss'] exI [of _ st']) simp
qed

text \<open>
  C8, as stated, fails: a condition of an unrecognized kind that is checked on two days is
  reported twice.
\<close>

theorem unrecognized_reported_counterexample:
  "\<not> isl (check_daily (create_initial_state [] 2 1 1 (sconst 0) ()) bogus_condition [0, 1])
   \<and> length (snd (projr (check_daily (create_initial_state [] 2 1 1 (sconst 0) ())
                bogus_condition [0, 1]))) = 2"
proof -
  have "cond_type bogus_condition = Some ''weekday''" "''weekday'' \<notin> set recognized_kinds"
    by (simp_all add: bogus_condition_def recognized_kinds_def)
  from check_daily_unrecognized
    [OF this, of "create_initial_state [] 2 1 1 (sconst 0) ()" "[0, 1]"]
  show ?thesis
    by (simp del: check_daily.simps)
qed

text \<open>
  C8, amended. When a condition has a kind that \<^verbatim>\<open>test_condition\<close> does not recognize,
  every evaluation returns false without raising and prints one report, in every state and
  on every day; checked once a day, the condition is false on every day and is reported
  once for every day on which it is checked.
\<close>

theorem unrecognized_condition_is_false:
  assumes "cond_type condition = Some ty" and "ty \<notin> set recognized_kinds"
  shows "test_condition ss condition day = Inr (False, [unrecognized_report ty])
    \<and> check_daily ss condition ds =
        Inr (replicate (length ds) False, replicate (length ds) (unrecognized_report ty))"
  using test_condition_unrecognized [OF assms] check_daily_unrecognized [OF assms]
  by blast

theorem unrecognized_condition_is_false_witness:
  "cond_type bogus_condition = Some ''weekday'' \<and> ''weekday'' \<notin> set recognized_kinds
   \<and> test_condition (create_initial_state [] 2 1 1 (sconst 0) ()) bogus_condition 0
       = Inr (False, [unrecognized_report ''weekday''])
   \<and> check_daily (create_initial_state [] 2 1 1 (sconst 0) ()) bogus_condition [0, 1]
       = Inr ([False, False], [unrecognized_report ''weekday'', unrecognized_report ''weekday''])"
proof -
  have a: "cond_type bogus_condition = Some ''weekday''" and b: "''weekday'' \<notin> set recognized_kinds"
    by (simp_all add: bogus_condition_def recognized_kinds_def)
  from unrecognized_condition_is_false [OF a b, of "create_initial_state [] 2 1 1 (sconst 0) ()" 0 "[0, 1]"]
    a b show ?thesis
    by (simp add: numeral_2_eq_2 del: check_daily.simps)
qed

text \<open>
  C9. The constant \<^verbatim>\<open>CUMULATIVE_CONFIRMED_DEATHS_SERIES\<close> is the string
  \<^verbatim>\<open>cumulative deaths\<close> and the constant \<^verbatim>\<open>CUMULATIVE_DEATHS_SERIES\<close> is the string
  \<^verbatim>\<open>cumulative confirmed deaths\<close>. In the report that \<^verbatim>\<open>write_data\<close> builds of a state,
  the entry \<^verbatim>\<open>cumulative deaths\<close> is the series that the state keeps under the first
  constant and the entry \<^verbatim>\<open>cumulative confirmed deaths\<close> is the one kept under the second.
  In a run of \<^verbatim>\<open>run_simulation\<close> whose collaborators leave the series alone, with \<^verbatim>\<open>Ds\<close>
  the counters of the days, the first of these series is the running sum of the confirmed
  deaths of the days and the second is the running sum of the true deaths.
\<close>

theorem death_series_labels:
  "series_label CUMULATIVE_CONFIRMED_DEATHS_SERIES = ''cumulative deaths''
   \<and> series_label CUMULATIVE_DEATHS_SERIES = ''cumulative confirmed deaths''
   \<and> (write_data ss = Inr data \<longrightarrow>
        map_of data ''cumulative deaths'' =
          Some (JList (series ss CUMULATIVE_CONFIRMED_DEATHS_SERIES))
      \<and> map_of data ''cumulative confirmed deaths'' =
          Some (JList (series ss CUMULATIVE_DEATHS_SERIES)))
   \<and> (keeps_statistics cb \<longrightarrow>
        run_simulation cb (create_initial_state phs n pop infection g z) = Some (Inr ss') \<longrightarrow>
        0 \<le> n \<longrightarrow>
        (\<exists>Ds. history (nat n) (series ss') Ds
          \<and> length (series ss' CUMULATIVE_DEATHS_SERIES) = nat n + 1
          \<and> length (series ss' CUMULATIVE_CONFIRMED_DEATHS_SERIES) = nat n + 1
          \<and> (\<forall>j \<le> nat n.
                series ss' CUMULATIVE_CONFIRMED_DEATHS_SERIES ! j =
                  (\<Sum>i\<le>j. (Ds ! i) DAILY_CONFIRMED_DEATHS)
              \<and> series ss' CUMULATIVE_DEATHS_SERIES ! j = (\<Sum>i\<le>j. (Ds ! i) DAILY_DEATHS))))"
  using write_data_deaths [of ss data]
    run_simulation_deaths [of cb phs n pop infection g z ss']
  by auto

theorem death_series_labels_witness:
  "\<exists>data ss' Ds.
     write_data (create_initial_state [] 1 1 1 (sconst 0) ()) = Inr data
   \<and> map_of data ''cumulative confirmed deaths'' =
       Some (JList (series (create_initial_state [] 1 1 1 (sconst 0) ()) CUMULATIVE_DEATHS_SERIES))
   \<and> keeps_statistics (test_callbacks 1 :: unit callbacks)
   \<and> run_simulation (test_callbacks 1) (create_initial_state [] 1 1 1 (sconst 0) ()) = Some (Inr ss')
   \<and> (0::int) \<le> 1
   \<and> series ss' CUMULATIVE_DEATHS_SERIES ! 1 = (\<Sum>i\<le>1. (Ds ! i) DAILY_DEATHS)"
proof -
  obtain ss' :: sim_state
    where run: "run_simulation (test_callbacks 1) (create_initial_state [] 1 1 1 (sconst 0) ())
       = Some (Inr ss')"
    using test_run_returns [of 1 1 1 1 "[]" "sconst 0" "()"] by auto
  obtain data where w: "write_data (create_initial_state [] 1 1 1 (sconst 0) ()) = Inr data"
    using write_data_initial [of 1 1 1 "sconst 0" "()"] by blast
  have keeps: "keeps_statistics (test_callbacks 1 :: unit callbacks)"
    by (rule keeps_statistics_test_callbacks)
  from death_series_labels
    [of "create_initial_state [] 1 1 1 (sconst 0) ()" data "test_callbacks 1"
        "[]" 1 1 1 "sconst 0" "()" ss']
    keeps run w
  obtain Ds where "map_of data ''cumulative confirmed deaths'' =
       Some (JList (series (create_initial_state [] 1 1 1 (sconst 0) ()) CUMULATIVE_DEATHS_SERIES))"
    and "series ss' CUMULATIVE_DEATHS_SERIES ! 1 = (\<Sum>i\<le>1. (Ds ! i) DAILY_DEATHS)"
    by auto
  with keeps run w show ?thesis
    by (intro exI [of _ data] exI [of _ ss'] exI [of _ Ds]) simp
qed






text \<open>
  C3. A person who can be infected samples up to \<^verbatim>\<open>n\<close> contacts. Whatever is drawn, the
  loop of \<^verbatim>\<open>exercise_2\<close> leaves the people and the new cases as they were, or it has set
  this one person to infected with days 1 and counted one new case. When the contact drawn
  at position \<^verbatim>\<open>k\<close> is the first contagious one and the uniform draw that follows is below
  the transmission probability, the person is infected, one case is counted and nothing
  more is drawn: \<^verbatim>\<open>k + 1\<close> contacts and one uniform value have been taken from the random
  source. The loop of \<^verbatim>\<open>evaluate_contacts\<close> in \<^verbatim>\<open>exercise_3d\<close> behaves in the same way for a
  person who is well.
\<close>

theorem susceptible_contact_pass:
  "returns (look_for_infectious cfg n i st) (infected_at_most_once i st)
   \<and> (0 < current_population st \<longrightarrow> nat (current_population st) \<le> length (people_list st) \<longrightarrow>
      k < n \<longrightarrow>
      (\<forall>m < k. state (sampled (people_list st) (current_population st) (sdrop m (generator st)))
         \<noteq> Contagious) \<longrightarrow>
      state (sampled (people_list st) (current_population st) (sdrop k (generator st)))
         = Contagious \<longrightarrow>
      fst (random_random (sdrop (Suc k) (generator st))) < cfg_transmission_probability cfg \<longrightarrow>
      look_for_infectious cfg n i st =
        Inr (st\<lparr> people_list := (people_list st)
                   [i := (people_list st ! i)\<lparr>state := Infected, days := 1\<rparr>],
                 new_cases := new_cases st + 1,
                 generator := sdrop (Suc (Suc k)) (generator st) \<rparr>))
   \<and> (state (s_people ss ! j) = Well \<longrightarrow>
      returns (contacts_of_susceptible HEALTH_STATES n j ss) (infected_at_most_once_3d j ss))
   \<and> (0 < s_daily_population ss \<longrightarrow> nat (s_daily_population ss) \<le> length (s_people ss) \<longrightarrow>
      k < n \<longrightarrow> state (s_people ss ! j) = Well \<longrightarrow>
      (\<forall>m < k. state (sampled (s_people ss) (s_daily_population ss) (sdrop m (s_generator ss)))
         \<noteq> Contagious) \<longrightarrow>
      state (sampled (s_people ss) (s_daily_population ss) (sdrop k (s_generator ss)))
         = Contagious \<longrightarrow>
      fst (random_random (sdrop (Suc k) (s_generator ss))) < s_current_transmission_probability ss \<longrightarrow>
      (\<exists>ss'. contacts_of_susceptible HEALTH_STATES n j ss = Inr ss'
         \<and> s_people ss' = (s_people ss)[j := (s_people ss ! j)\<lparr>state := Infected, days := 1\<rparr>]
         \<and> s_daily_cases ss' = s_daily_cases ss + 1
         \<and> s_generator ss' = sdrop (Suc (Suc k)) (s_generator ss)))"
  using look_for_infectious_once [of cfg n i st]
    look_for_infectious_first_contagious [of st "generator st" k n cfg i]
    contacts_of_susceptible_once [of ss j n]
    contacts_of_susceptible_first_contagious [of ss "s_generator ss" k n j]
  by blast

theorem susceptible_contact_pass_witness:
  "\<exists>st' ss'.
     state (sampled (people_list small_script) 3 ([1, 0, 0, 7] @- sconst 0)) = Well
   \<and> state (sampled (people_list small_script) 3 ([0, 0, 7] @- sconst 0)) = Contagious
   \<and> fst (random_random ([0, 7] @- sconst 0)) < cfg_transmission_probability small_config
   \<and> look_for_infectious small_config 2 1 (small_script\<lparr>generator := [1, 0, 0, 7] @- sconst 0\<rparr>)
       = Inr st'
   \<and> map state (people_list st') = [Contagious, Infected, Well]
   \<and> new_cases st' = 1 \<and> generator st' = [7] @- sconst 0
   \<and> contacts_of_susceptible HEALTH_STATES 2 1
         (small_state_3d\<lparr>s_generator := [1, 0, 0, 7] @- sconst 0\<rparr>) = Inr ss'
   \<and> map state (s_people ss') = [Contagious, Infected, Well]
   \<and> s_daily_cases ss' = 1 \<and> s_generator ss' = [7] @- sconst 0"
proof -
  let ?g = "[1, 0, 0, 7] @- sconst 0"
  let ?st = "small_script\<lparr>generator := ?g\<rparr>"
  let ?ss = "small_state_3d\<lparr>s_generator := ?g\<rparr>"
  have p: "people_list small_script =
      [\<lparr>pid = 0, state = Contagious, days = 1\<rparr>, \<lparr>pid = 1, state = Well, days = 1\<rparr>,
       \<lparr>pid = 2, state = Well, days = 1\<rparr>]"
    "current_population small_script = 3" "new_cases small_script = 0"
    by (simp_all add: small_script_def start_tracking_def initial_script_def)
  have q: "s_people small_state_3d =
      [\<lparr>pid = 0, state = Contagious, days = 1\<rparr>, \<lparr>pid = 1, state = Well, days = 1\<rparr>,
       \<lparr>pid = 2, state = Well, days = 1\<rparr>]"
    "s_daily_population small_state_3d = 3" "s_daily_cases small_state_3d = 0"
    "s_current_transmission_probability small_state_3d = 1"
    by (simp_all add: small_state_3d_def)
  have c: "cfg_transmission_probability small_config = 1"
    by (simp add: small_config_def)
  have u: "fst (random_random ([0, 7] @- sconst 0)) = 0"
    by (simp add: random_random_def)
  have s: "sampled (people_list small_script) 3 ([1, 0, 0, 7] @- sconst 0)
        = \<lparr>pid = 1, state = Well, days = 1\<rparr>"
    "sampled (people_list small_script) 3 ([0, 0, 7] @- sconst 0)
        = \<lparr>pid = 0, state = Contagious, days = 1\<rparr>"
    by (simp_all add: sampled_def p)
  from susceptible_contact_pass [where cfg = small_config and n = "Suc (Suc 0)" and i = 1
      and st = ?st and k = "Suc 0" and ss = ?ss and j = 1]
  have "look_for_infectious small_config (Suc (Suc 0)) 1 ?st =
        Inr (?st\<lparr> people_list := (people_list ?st)
                   [1 := (people_list ?st ! 1)\<lparr>state := Infected, days := 1\<rparr>],
                 new_cases := new_cases ?st + 1,
                 generator := sdrop (Suc (Suc (Suc 0))) (generator ?st) \<rparr>)"
    and "\<exists>ss'. contacts_of_susceptible HEALTH_STATES (Suc (Suc 0)) 1 ?ss = Inr ss'
         \<and> s_people ss' = (s_people ?ss)[1 := (s_people ?ss ! 1)\<lparr>state := Infected, days := 1\<rparr>]
         \<and> s_daily_cases ss' = s_daily_cases ?ss + 1
         \<and> s_generator ss' = sdrop (Suc (Suc (Suc 0))) (s_generator ?ss)"
    using p q c u s by (simp_all add: sampled_def)
  then show ?thesis
    using p q c u s by (auto simp: numeral_2_eq_2)
qed

text \<open>
  C4. The body of the loop over the people has two branches, and both sample
  \<^verbatim>\<open>int(daily_contacts / 2)\<close> contacts, the quotient of the integer division by 2: a person
  who can be infected looks for a contagious contact, a contagious person looks for
  contacts who can be infected. When no sampled contact matches, either branch draws exactly
  that many indices below the population count. In the branch of a contagious person a
  successful transmission infects the contact, counts a new case and goes on with the
  remaining contacts; the branch of a person who can be infected returns at once in that
  situation. With 5 daily contacts a contagious person infects two different people in one
  day, in \<^verbatim>\<open>exercise_2\<close> and in \<^verbatim>\<open>evaluate_contacts\<close> of \<^verbatim>\<open>exercise_3d\<close>.
\<close>

theorem contact_passes:
  "(can_be_infected (cfg_health_states cfg (state (people_list st ! i))) \<longrightarrow>
      evaluate_person cfg i st =
        look_for_infectious cfg (nat (cfg_daily_contacts cfg div 2)) i st)
   \<and> (\<not> can_be_infected (cfg_health_states cfg (state (people_list st ! i2))) \<longrightarrow>
      state (people_list st ! i2) = Contagious \<longrightarrow>
      evaluate_person cfg i2 st = look_for_susceptible cfg (nat (cfg_daily_contacts cfg div 2)) st)
   \<and> (can_be_infected (table (state (s_people ss ! j))) \<longrightarrow>
      evaluate_contacts table ss j =
        contacts_of_susceptible table (nat (s_current_daily_contacts ss div 2)) j ss)
   \<and> (\<not> can_be_infected (table (state (s_people ss ! j2))) \<longrightarrow>
      state (s_people ss ! j2) = Contagious \<longrightarrow>
      evaluate_contacts table ss j2 =
        contacts_of_contagious table (nat (s_current_daily_contacts ss div 2)) ss)
   \<and> (0 < current_population st1 \<longrightarrow> nat (current_population st1) \<le> length (people_list st1) \<longrightarrow>
      (\<forall>p \<in> set (people_list st1). state p \<noteq> Contagious) \<longrightarrow>
      look_for_infectious cfg n i st1 = Inr (st1\<lparr>generator := sdrop n (generator st1)\<rparr>))
   \<and> (0 < current_population st2 \<longrightarrow> nat (current_population st2) \<le> length (people_list st2) \<longrightarrow>
      (\<forall>p \<in> set (people_list st2). \<not> can_be_infected (cfg_health_states cfg (state p))) \<longrightarrow>
      look_for_susceptible cfg n st2 = Inr (st2\<lparr>generator := sdrop n (generator st2)\<rparr>))
   \<and> (0 < current_population st \<longrightarrow> nat (current_population st) \<le> length (people_list st) \<longrightarrow>
      can_be_infected (cfg_health_states cfg
        (state (sampled (people_list st) (current_population st) (generator st)))) \<longrightarrow>
      fst (random_random (stl (generator st))) < cfg_transmission_probability cfg \<longrightarrow>
      look_for_susceptible cfg (Suc n) st =
        look_for_susceptible cfg n
          (st\<lparr> people_list := (people_list st)
                   [nat (int (shd (generator st)) mod current_population st) :=
                      (sampled (people_list st) (current_population st) (generator st))
                        \<lparr>state := Infected, days := 1\<rparr>],
                new_cases := new_cases st + 1,
                generator := stl (stl (generator st)) \<rparr>))
   \<and> (\<exists>st'. evaluate_person (small_config\<lparr>cfg_daily_contacts := 5\<rparr>) 0 small_script = Inr st'
         \<and> map state (people_list st') = [Contagious, Infected, Infected]
         \<and> new_cases st' = new_cases small_script + 2)
   \<and> (\<exists>ss'. evaluate_contacts HEALTH_STATES (small_state_3d\<lparr>s_current_daily_contacts := 5\<rparr>) 0
           = Inr ss'
         \<and> map state (s_people ss') = [Contagious, Infected, Infected]
         \<and> s_daily_cases ss' = s_daily_cases small_state_3d + 2)"
  using evaluate_person_susceptible [of cfg st i] evaluate_person_contagious [of cfg st i2]
    evaluate_contacts_susceptible [of table ss j] evaluate_contacts_contagious [of table ss j2]
    look_for_infectious_all_draws [of st1 cfg n i] look_for_susceptible_all_draws [of st2 cfg n]
    look_for_susceptible_goes_on [of st cfg n] two_infections two_infections_3d
  by blast

end
